theory Spec2Isabelle
  imports Complex_Main "HOL-Library.Multiset" "HOL-Library.Word"
begin

section \<open>Numbers, strings and errors\<close>

text \<open>
  The search and ranking core of the service works on JavaScript numbers. Where a
  property is one of exact arithmetic (lengths, errors, order, counts, the closed form
  of a score) they are modelled as \<^typ>\<open>real\<close>. Where it is about \<open>NaN\<close>, overflow
  or underflow, \<open>cosineSimilarity\<close> is modelled in binary64 arithmetic, in a section
  of its own. Arrays of numbers are lists; an array is always truthy, so the \<open>!vec\<close>
  tests of the source are false on every list.

  Every \<open>throw new Error(...)\<close> of the modelled functions is a constructor of
  \<open>error\<close>; a function that can throw returns \<open>error + 'a\<close>.
\<close>

text \<open>
  A text or query is a JavaScript string, a sequence of 16-bit code units; \<open>ascii\<close>
  gives the code units of an ASCII text. Strings that the code only passes along or
  compares with ASCII characters (titles, links, serialized vectors) stay of type
  \<^typ>\<open>string\<close>.
\<close>

type_synonym js_string = "16 word list"

definition ascii :: "string \<Rightarrow> js_string" where
  "ascii s = map of_char s"

datatype error =
    VectorLengthMismatch      \<comment> \<open>the message that the vectors must have the same length\<close>
  | TextNotNonEmptyString     \<comment> \<open>\<open>'Text muss ein nicht-leerer String sein'\<close>\<close>
  | TextEmptyAfterTrim        \<comment> \<open>\<open>'Text ist leer nach Bereinigung'\<close>\<close>
  | ModelFailure              \<comment> \<open>the pipeline failed to load, or the model threw\<close>
  | QueryNotNonEmptyString    \<comment> \<open>\<open>'Query muss ein nicht-leerer String sein'\<close>\<close>
  | EmbeddingsFetchFailed     \<comment> \<open>\<open>'Fehler beim Abrufen der Embeddings: ...'\<close>\<close>
  | ProblemsFetchFailed       \<comment> \<open>\<open>'Fehler beim Abrufen der Probleme: ...'\<close>\<close>
  | TypeError                 \<comment> \<open>a property read on \<open>undefined\<close>\<close>

section \<open>embeddingService.js: cosineSimilarity\<close>

text \<open>
  One pass of the \<open>for\<close> loop: the three accumulators \<open>dotProduct\<close>, \<open>norm1\<close> and
  \<open>norm2\<close> at index \<open>i\<close>.
\<close>

fun cosine_step :: "real list \<Rightarrow> real list \<Rightarrow> nat \<Rightarrow> real \<times> real \<times> real \<Rightarrow> real \<times> real \<times> real" where
  "cosine_step vec1 vec2 i (dotProduct, norm1, norm2) =
     (dotProduct + vec1 ! i * vec2 ! i,
      norm1 + vec1 ! i * vec1 ! i,
      norm2 + vec2 ! i * vec2 ! i)"

text \<open>
  The loop runs \<open>i\<close> from \<open>0\<close> below \<open>vec1.length\<close>; it is only reached when both
  lengths agree, so every index read is in range.
\<close>

definition cosineSimilarity :: "real list \<Rightarrow> real list \<Rightarrow> error + real" where
  "cosineSimilarity vec1 vec2 =
     (if length vec1 \<noteq> length vec2 then Inl VectorLengthMismatch
      else
        (case fold (cosine_step vec1 vec2) [0..<length vec1] (0, 0, 0) of
           (dotProduct, norm1, norm2) \<Rightarrow>
             let magnitude = sqrt norm1 * sqrt norm2
             in if magnitude = 0 then Inr 0 else Inr (dotProduct / magnitude)))"

text \<open>The mathematical notions the specification uses: dot product and L2 norm.\<close>

definition dot :: "real list \<Rightarrow> real list \<Rightarrow> real" where
  "dot a b = (\<Sum>i<length a. a ! i * b ! i)"

definition l2norm :: "real list \<Rightarrow> real" where
  "l2norm a = sqrt (\<Sum>x\<leftarrow>a. x\<^sup>2)"

section \<open>cosineSimilarity in binary64 arithmetic\<close>

text \<open>
  What exact arithmetic cannot show is where \<open>NaN\<close> arises. For that,
  \<open>cosineSimilarity\<close> is modelled a second time on the numbers of JavaScript, the
  binary64 values of IEEE 754: the finite values, the two infinities and \<open>NaN\<close>. The
  two zeros are taken as one: they differ only as divisors, and \<open>cosineSimilarity\<close>
  divides by its magnitude only after the test that it is not zero.
\<close>

datatype number = Num real | PosInf | NegInf | NaN

text \<open>Rounding to the nearest integer, a tie to the even one.\<close>

definition round_half_even :: "real \<Rightarrow> int" where
  "round_half_even q =
     (if q - of_int \<lfloor>q\<rfloor> < 1 / 2 then \<lfloor>q\<rfloor>
      else if 1 / 2 < q - of_int \<lfloor>q\<rfloor> then \<lfloor>q\<rfloor> + 1
      else if even \<lfloor>q\<rfloor> then \<lfloor>q\<rfloor> else \<lfloor>q\<rfloor> + 1)"

text \<open>
  The binary64 value of a real result. With 53 significant bits, the spacing of the
  values around \<open>x\<close> is two to the power \<open>ulp_exponent x\<close>, and not below the
  spacing of the subnormal values, two to the power \<open>-1074\<close>. The real \<open>x\<close> is
  rounded to the nearest multiple of the spacing, a tie to the even multiple, and a
  rounded magnitude of two to the power \<open>1024\<close> or more is an infinity.
\<close>

definition ulp_exponent :: "real \<Rightarrow> int" where
  "ulp_exponent x = max \<lfloor>log 2 \<bar>x\<bar>\<rfloor> (- 1022) - 52"

definition to_double :: "real \<Rightarrow> number" where
  "to_double x =
     (if x = 0 then Num 0
      else
        let ulp = 2 powr of_int (ulp_exponent x);
            r = of_int (round_half_even (x / ulp)) * ulp
        in if 2 ^ 1024 \<le> r then PosInf else if r \<le> - (2 ^ 1024) then NegInf else Num r)"

text \<open>
  The operations on numbers: the special values as IEEE 754 has them, the rounded
  exact result on finite values. \<open>Math.sqrt\<close> is taken as the correctly rounded
  square root. A finite value divided by zero is given the sign it has for the
  positive zero; \<open>cosineSimilarity\<close> never divides by zero.
\<close>

fun fneg :: "number \<Rightarrow> number" where
  "fneg (Num x) = Num (- x)"
| "fneg PosInf = NegInf"
| "fneg NegInf = PosInf"
| "fneg NaN = NaN"

fun fadd :: "number \<Rightarrow> number \<Rightarrow> number" where
  "fadd (Num x) (Num y) = to_double (x + y)"
| "fadd NaN y = NaN"
| "fadd x NaN = NaN"
| "fadd PosInf NegInf = NaN"
| "fadd NegInf PosInf = NaN"
| "fadd PosInf y = PosInf"
| "fadd x PosInf = PosInf"
| "fadd NegInf y = NegInf"
| "fadd x NegInf = NegInf"

fun fmul :: "number \<Rightarrow> number \<Rightarrow> number" where
  "fmul (Num x) (Num y) = to_double (x * y)"
| "fmul NaN y = NaN"
| "fmul x NaN = NaN"
| "fmul (Num x) y = (if x = 0 then NaN else if 0 < x then y else fneg y)"
| "fmul x (Num y) = (if y = 0 then NaN else if 0 < y then x else fneg x)"
| "fmul PosInf y = y"
| "fmul NegInf y = fneg y"

fun fdiv :: "number \<Rightarrow> number \<Rightarrow> number" where
  "fdiv (Num x) (Num y) =
     (if y = 0 then (if x = 0 then NaN else if 0 < x then PosInf else NegInf)
      else to_double (x / y))"
| "fdiv NaN y = NaN"
| "fdiv x NaN = NaN"
| "fdiv (Num x) y = Num 0"
| "fdiv x (Num y) = (if 0 \<le> y then x else fneg x)"
| "fdiv x y = NaN"

fun fsqrt :: "number \<Rightarrow> number" where
  "fsqrt (Num x) = (if x < 0 then NaN else to_double (sqrt x))"
| "fsqrt PosInf = PosInf"
| "fsqrt NegInf = NaN"
| "fsqrt NaN = NaN"

fun cosine_step_binary64 ::
  "number list \<Rightarrow> number list \<Rightarrow> nat \<Rightarrow> number \<times> number \<times> number \<Rightarrow> number \<times> number \<times> number" where
  "cosine_step_binary64 vec1 vec2 i (dotProduct, norm1, norm2) =
     (fadd dotProduct (fmul (vec1 ! i) (vec2 ! i)),
      fadd norm1 (fmul (vec1 ! i) (vec1 ! i)),
      fadd norm2 (fmul (vec2 ! i) (vec2 ! i)))"

text \<open>\<open>magnitude === 0\<close> holds of a zero and of nothing else; \<open>NaN\<close> is not equal to zero.\<close>

definition cosineSimilarity_binary64 :: "number list \<Rightarrow> number list \<Rightarrow> error + number" where
  "cosineSimilarity_binary64 vec1 vec2 =
     (if length vec1 \<noteq> length vec2 then Inl VectorLengthMismatch
      else
        (case fold (cosine_step_binary64 vec1 vec2) [0..<length vec1] (Num 0, Num 0, Num 0) of
           (dotProduct, norm1, norm2) \<Rightarrow>
             let magnitude = fmul (fsqrt norm1) (fsqrt norm2)
             in if magnitude = Num 0 then Inr (Num 0) else Inr (fdiv dotProduct magnitude)))"

text \<open>
  The quantities the loop accumulates, each on its own: the sum of squares of a vector
  and the dot product of two vectors, summed in index order.
\<close>

definition sum_squares_binary64 :: "number list \<Rightarrow> number" where
  "sum_squares_binary64 v = foldl (\<lambda>acc x. fadd acc (fmul x x)) (Num 0) v"

definition dot_binary64 :: "number list \<Rightarrow> number list \<Rightarrow> number" where
  "dot_binary64 a b = foldl (\<lambda>acc (x, y). fadd acc (fmul x y)) (Num 0) (zip a b)"

definition is_finite :: "number \<Rightarrow> bool" where
  "is_finite x = (case x of Num r \<Rightarrow> True | _ \<Rightarrow> False)"

section \<open>embeddingService.js: generateEmbedding\<close>

text \<open>
  The text model (\<open>@xenova/transformers\<close>) is not code of the repository; the model
  takes it as a parameter: whether \<open>pipeline(...)\<close> resolves, and what
  \<open>output.data\<close> the loaded model yields for a text (\<open>None\<close> when the call throws).
\<close>

record backend =
  pipeline_loads :: bool
  infer :: "js_string \<Rightarrow> real list option"

text \<open>
  The module state: \<open>embedder\<close> is true once the module variable of that name holds
  the loaded pipeline. The fields \<open>loads\<close> and \<open>calls\<close> record the effects on the
  backend: how often \<open>pipeline(...)\<close> was called, and the texts the model was called on.
\<close>

record encoder_state =
  embedder :: bool
  loads :: nat
  calls :: "js_string list"

definition fresh_state :: encoder_state where
  "fresh_state = \<lparr>embedder = False, loads = 0, calls = []\<rparr>"

text \<open>
  \<open>initializeModel\<close>, as one caller sees it. The flag \<open>isInitializing\<close> is set and
  cleared inside the call, so it is false whenever a call that is not interleaved
  with another one starts; the polling branch belongs to interleaved callers only.
\<close>

definition initializeModel :: "backend \<Rightarrow> encoder_state \<Rightarrow> (error + unit) \<times> encoder_state" where
  "initializeModel b s =
     (if embedder s then (Inr (), s)
      else if pipeline_loads b then (Inr (), s\<lparr>embedder := True, loads := Suc (loads s)\<rparr>)
      else (Inl ModelFailure, s\<lparr>loads := Suc (loads s)\<rparr>))"

text \<open>
  \<open>String.prototype.trim\<close> removes white space and line terminators from both
  ends. White space is tab, vertical tab, form feed, the byte order mark \<open>U+FEFF\<close>
  and the space separators of Unicode (space, no-break space, \<open>U+1680\<close>, \<open>U+2000\<close>
  to \<open>U+200A\<close>, \<open>U+202F\<close>, \<open>U+205F\<close>, \<open>U+3000\<close>); the line terminators are
  line feed, carriage return, \<open>U+2028\<close> and \<open>U+2029\<close>. Each is one code unit.
\<close>

definition is_whitespace :: "16 word \<Rightarrow> bool" where
  "is_whitespace c \<longleftrightarrow>
     c = 0x0009 \<or> c = 0x000B \<or> c = 0x000C \<or> c = 0xFEFF
     \<or> c = 0x0020 \<or> c = 0x00A0 \<or> c = 0x1680
     \<or> c = 0x2000 \<or> c = 0x2001 \<or> c = 0x2002 \<or> c = 0x2003 \<or> c = 0x2004 \<or> c = 0x2005
     \<or> c = 0x2006 \<or> c = 0x2007 \<or> c = 0x2008 \<or> c = 0x2009 \<or> c = 0x200A
     \<or> c = 0x202F \<or> c = 0x205F \<or> c = 0x3000
     \<or> c = 0x000A \<or> c = 0x000D \<or> c = 0x2028 \<or> c = 0x2029"

definition trim :: "js_string \<Rightarrow> js_string" where
  "trim s = rev (dropWhile is_whitespace (rev (dropWhile is_whitespace s)))"

text \<open>The repair of an embedding whose length is not \<open>dimensions\<close>.\<close>

definition fit_dimensions :: "real list \<Rightarrow> nat \<Rightarrow> real list" where
  "fit_dimensions embedding dimensions =
     (if length embedding \<noteq> dimensions then
        (if length embedding < dimensions
         then embedding @ replicate (dimensions - length embedding) 0
         else take dimensions embedding)
      else embedding)"

text \<open>
  \<open>generateEmbedding(text, dimensions = 384)\<close>. The \<open>catch\<close> block logs and rethrows,
  so every error leaves the function unchanged.
\<close>

definition generateEmbedding ::
  "backend \<Rightarrow> js_string \<Rightarrow> nat \<Rightarrow> encoder_state \<Rightarrow> (error + real list) \<times> encoder_state" where
  "generateEmbedding b input dimensions s =
     (if input = [] then (Inl TextNotNonEmptyString, s)
      else
        let cleanedText = trim input in
        if length cleanedText = 0 then (Inl TextEmptyAfterTrim, s)
        else
          (case initializeModel b s of
             (Inl e, s1) \<Rightarrow> (Inl e, s1)
           | (Inr _, s1) \<Rightarrow>
               let s2 = s1\<lparr>calls := calls s1 @ [cleanedText]\<rparr> in
               (case infer b cleanedText of
                  None \<Rightarrow> (Inl ModelFailure, s2)
                | Some data \<Rightarrow> (Inr (fit_dimensions data dimensions), s2))))"

text \<open>
  Two backends for concrete runs: one whose model yields the unit vector \<open>[0.6, 0.8]\<close>
  (shorter than 384), and one whose model yields a unit vector of 385 components with
  all its weight on the last one.
\<close>

definition short_backend :: backend where
  "short_backend = \<lparr>pipeline_loads = True, infer = (\<lambda>t. Some [3 / 5, 4 / 5])\<rparr>"

definition oversized_backend :: backend where
  "oversized_backend = \<lparr>pipeline_loads = True, infer = (\<lambda>t. Some (replicate 384 0 @ [1]))\<rparr>"

section \<open>Array.prototype.sort and Array.prototype.slice\<close>

text \<open>
  \<open>Array.prototype.sort\<close> with a comparator is stable (ECMAScript 2019): for a
  comparator that is a consistent ordering the result is the one stable arrangement in
  which no element is followed by one that compares smaller. Inserting the elements,
  last first, before the first element they do not compare greater than computes that
  arrangement.
\<close>

fun insert_by :: "('a \<Rightarrow> 'a \<Rightarrow> real) \<Rightarrow> 'a \<Rightarrow> 'a list \<Rightarrow> 'a list" where
  "insert_by cmp x [] = [x]"
| "insert_by cmp x (y # ys) = (if cmp x y \<le> 0 then x # y # ys else y # insert_by cmp x ys)"

definition js_sort :: "('a \<Rightarrow> 'a \<Rightarrow> real) \<Rightarrow> 'a list \<Rightarrow> 'a list" where
  "js_sort cmp xs = foldr (insert_by cmp) xs []"

text \<open>
  \<open>xs.slice(0, end)\<close> for an integer \<open>end\<close>: a negative \<open>end\<close> counts from the end
  of the array.
\<close>

definition slice0 :: "'a list \<Rightarrow> int \<Rightarrow> 'a list" where
  "slice0 xs end_index =
     (if end_index < 0 then take (nat (int (length xs) + end_index)) xs
      else take (nat end_index) xs)"

section \<open>supabaseService.js: semanticSearch\<close>



record match =
  match_problem_id :: nat
  match_similarity :: real

text \<open>
  A row of table \<open>problems\<close> with its embedded solutions; only the columns the
  search reads are kept, the others are copied along unchanged by the source.
\<close>

record problem =
  prob_id :: nat
  title :: string

text \<open>
  A hit of the internal search: the problem, its similarity and, when the search
  function provides one, a relevance score.
\<close>

record hit =
  hit_problem :: problem
  similarity :: real
  relevance_score :: "real option"



text \<open>\<open>.replace(/^\[/, '[')\<close> and \<open>.replace(/\]$/, ']')\<close>.\<close>

fun replace_leading_bracket :: "string \<Rightarrow> string" where
  "replace_leading_bracket [] = []"
| "replace_leading_bracket (c # cs) = (if c = CHR ''['' then CHR ''['' # cs else c # cs)"

definition replace_trailing_bracket :: "string \<Rightarrow> string" where
  "replace_trailing_bracket s =
     (if s \<noteq> [] \<and> last s = CHR '']'' then butlast s @ [CHR '']''] else s)"




text \<open>The ranking step: filter by threshold, sort descending, slice.\<close>

definition topMatches :: "match list \<Rightarrow> real \<Rightarrow> int \<Rightarrow> match list" where
  "topMatches sims threshold limit =
     slice0
       (js_sort (\<lambda>a b. match_similarity b - match_similarity a)
          (filter (\<lambda>item. match_similarity item \<ge> threshold) sims))
       limit"


fun map_throwing :: "('a \<Rightarrow> error + 'b) \<Rightarrow> 'a list \<Rightarrow> error + 'b list" where
  "map_throwing f [] = Inr []"
| "map_throwing f (x # xs) =
     (case f x of
        Inl e \<Rightarrow> Inl e
      | Inr y \<Rightarrow> (case map_throwing f xs of Inl e \<Rightarrow> Inl e | Inr ys \<Rightarrow> Inr (y # ys)))"




text \<open>Four candidates for concrete runs of the ranking step.\<close>

definition match_a :: match where
  "match_a = \<lparr>match_problem_id = 1, match_similarity = 4 / 10\<rparr>"

definition match_b :: match where
  "match_b = \<lparr>match_problem_id = 2, match_similarity = 9 / 10\<rparr>"

definition match_c :: match where
  "match_c = \<lparr>match_problem_id = 3, match_similarity = 5 / 100\<rparr>"

definition match_d :: match where
  "match_d = \<lparr>match_problem_id = 4, match_similarity = 9 / 10\<rparr>"







section \<open>externalSourcesService.js: the Stack Overflow adapter\<close>

text \<open>
  An item of the Stack Exchange response, with the fields the relevance heuristic
  reads. \<open>accepted_answer_id\<close> is absent on a question without accepted answer;
  \<open>creation_date\<close> is in seconds since the epoch.
\<close>

record so_item =
  so_title :: string
  so_link :: string
  so_score :: int
  so_answer_count :: nat
  so_view_count :: nat
  so_is_answered :: bool
  so_accepted_answer_id :: "int option"
  so_creation_date :: int

text \<open>
  \<open>calculateStackOverflowRelevance(item)\<close>; \<open>now\<close> is the value of \<open>Date.now()\<close> in
  milliseconds. An identifier is truthy when it is present and not zero.
  \<open>Math.round\<close> rounds to the nearest integer, a half upwards, as \<^const>\<open>round\<close> does.
\<close>

definition calculateStackOverflowRelevance :: "int \<Rightarrow> so_item \<Rightarrow> int" where
  "calculateStackOverflowRelevance now item =
     (let score0 = (0 :: real);
          score1 = score0 + of_int (so_score item) * 5;
          score2 = score1 + of_nat (so_answer_count item) * 10;
          score3 = (if so_is_answered item then score2 + 20 else score2);
          score4 = (case so_accepted_answer_id item of
                      Some answer \<Rightarrow> if answer \<noteq> 0 then score3 + 30 else score3
                    | None \<Rightarrow> score3);
          score5 = score4 + log 10 (of_nat (so_view_count item) + 1) * 5;
          ageInDays = (of_int now - of_int (so_creation_date item) * 1000) / (1000 * 60 * 60 * 24);
          score6 = (if ageInDays < (365 :: real) then score5 + 10 else score5)
      in round score6)"

text \<open>
  A formatted Stack Overflow result. The descriptive fields (tags, excerpt, the
  creation date as ISO string) do not enter any computation and are left out.
\<close>

record so_result =
  sr_title :: string
  sr_link :: string
  sr_relevance_score :: int

text \<open>
  What \<open>axios.get\<close> resolves to: a failure (time-out, network error, a status outside
  2xx, given when there is a response), or a response whose \<open>data.items\<close> may be
  missing.
\<close>

datatype 'a http = HttpFailure "nat option" | HttpResponse "'a list option"

text \<open>
  An item of the YouTube response. \<open>item.id\<close>, \<open>item.snippet\<close> and
  \<open>item.snippet.thumbnails.medium\<close> may be missing, and reading a property of a
  missing object throws a \<open>TypeError\<close>.
\<close>

record yt_snippet =
  sn_title :: string
  sn_thumbnail_medium :: "string option"

record yt_item =
  yt_video_id :: "string option"
  yt_snippet :: "yt_snippet option"

record yt_result =
  yr_title :: string
  yr_link :: string
  yr_video_id :: string
  yr_thumbnail :: string

text \<open>
  The outside world of the adapters: the clock, the two web services as functions of
  query and limit, and whether \<open>YOUTUBE_API_KEY\<close> is set.
\<close>

record world =
  clock :: int
  stack_exchange :: "js_string \<Rightarrow> int \<Rightarrow> so_item http"
  youtube_api :: "js_string \<Rightarrow> int \<Rightarrow> yt_item http"
  youtube_key :: bool

text \<open>
  \<open>new Date(ms).toISOString()\<close> throws a \<open>RangeError\<close> outside the range of time
  values.
\<close>

definition valid_time_value :: "int \<Rightarrow> bool" where
  "valid_time_value ms \<longleftrightarrow> \<bar>ms\<bar> \<le> 8640000000000000"

text \<open>
  \<open>searchStackOverflow(query, limit = 5)\<close>. Everything thrown inside, by the query
  test, by \<open>axios.get\<close> or while formatting, is caught and turned into the empty
  array, so the function returns an array in every case.
\<close>

definition searchStackOverflow :: "world \<Rightarrow> js_string \<Rightarrow> int \<Rightarrow> so_result list" where
  "searchStackOverflow w query limit =
     (if query = [] then []
      else
        (case stack_exchange w query limit of
           HttpFailure status \<Rightarrow> []
         | HttpResponse None \<Rightarrow> []
         | HttpResponse (Some items) \<Rightarrow>
             if list_all (\<lambda>item. valid_time_value (so_creation_date item * 1000)) items
             then js_sort (\<lambda>a b. of_int (sr_relevance_score b) - of_int (sr_relevance_score a))
                    (map (\<lambda>item. \<lparr>sr_title = so_title item, sr_link = so_link item,
                                   sr_relevance_score = calculateStackOverflowRelevance (clock w) item\<rparr>)
                       items)
             else []))"

section \<open>externalSourcesService.js: the YouTube adapter\<close>

text \<open>The callback of \<open>items.map\<close>; the descriptive fields of the snippet are left out.\<close>

definition format_video :: "yt_item \<Rightarrow> error + yt_result" where
  "format_video item =
     (case yt_snippet item of
        None \<Rightarrow> Inl TypeError
      | Some snippet \<Rightarrow>
          (case yt_video_id item of
             None \<Rightarrow> Inl TypeError
           | Some videoId \<Rightarrow>
               (case sn_thumbnail_medium snippet of
                  None \<Rightarrow> Inl TypeError
                | Some url \<Rightarrow>
                    Inr \<lparr>yr_title = sn_title snippet,
                         yr_link = ''https://www.youtube.com/watch?v='' @ videoId,
                         yr_video_id = videoId,
                         yr_thumbnail = url\<rparr>)))"

text \<open>
  \<open>searchYouTube(query, limit = 5)\<close>. As in the other adapter, everything thrown
  inside is caught and turned into the empty array.
\<close>

definition searchYouTube :: "world \<Rightarrow> js_string \<Rightarrow> int \<Rightarrow> yt_result list" where
  "searchYouTube w query limit =
     (if query = [] then []
      else if \<not> youtube_key w then []
      else
        (case youtube_api w query limit of
           HttpFailure status \<Rightarrow> []
         | HttpResponse None \<Rightarrow> []
         | HttpResponse (Some items) \<Rightarrow>
             (case map_throwing format_video items of
                Inl e \<Rightarrow> []
              | Inr results \<Rightarrow> results)))"

section \<open>externalSourcesService.js: combineAndRankResults and searchAllSources\<close>

text \<open>
  An entry of the fused list: the item, tagged with the source it came from, and its
  \<open>rank_score\<close>.
\<close>

datatype source_item = Internal hit | StackOverflow so_result | YouTube yt_result

record ranked =
  ranked_item :: source_item
  rank_score :: real

text \<open>
  \<open>item.relevance_score || item.similarity * 100\<close>: the left operand unless it is
  falsy, that is absent or zero.
\<close>

definition relevance_or_similarity :: "hit \<Rightarrow> real" where
  "relevance_or_similarity h =
     (case relevance_score h of
        Some r \<Rightarrow> if r \<noteq> 0 then r else similarity h * 100
      | None \<Rightarrow> similarity h * 100)"

text \<open>Each \<open>forEach\<close> pushes one entry per item onto \<open>all\<close>.\<close>

definition combineAndRankResults :: "hit list \<Rightarrow> so_result list \<Rightarrow> yt_result list \<Rightarrow> ranked list" where
  "combineAndRankResults internal stackoverflow youtube =
     (let all0 = [];
          all1 = fold (\<lambda>h all. all @ [\<lparr>ranked_item = Internal h, rank_score = relevance_or_similarity h + 100\<rparr>])
                   internal all0;
          all2 = fold (\<lambda>r all. all @ [\<lparr>ranked_item = StackOverflow r, rank_score = of_int (sr_relevance_score r)\<rparr>])
                   stackoverflow all1;
          all3 = fold (\<lambda>v all. all @ [\<lparr>ranked_item = YouTube v, rank_score = 30\<rparr>])
                   youtube all2
      in slice0 (js_sort (\<lambda>a b. rank_score b - rank_score a) all3) 10)"

text \<open>The outcome of a promise under \<open>Promise.allSettled\<close>.\<close>

datatype 'a settled = Fulfilled 'a | Rejected

record limits =
  internalLimit :: int
  stackOverflowLimit :: int
  youtubeLimit :: int

definition default_limits :: limits where
  "default_limits = \<lparr>internalLimit = 5, stackOverflowLimit = 3, youtubeLimit = 2\<rparr>"

text \<open>
  The object \<open>searchAllSources\<close> returns; the nested \<open>sources\<close> object is flattened
  into fields, and the time stamp is the clock value.
\<close>

record combined =
  combined_query :: js_string
  timestamp :: int
  total_results :: nat
  internal_count :: nat
  internal_results :: "source_item list"
  stackoverflow_count :: nat
  stackoverflow_results :: "so_result list"
  youtube_count :: nat
  youtube_results :: "yt_result list"
  top_results :: "ranked list"

text \<open>
  \<open>searchAllSources(query, supabaseSearchFn, options)\<close>. The internal search function
  is a parameter: what its promise settles to, for a query and a limit. The two
  adapters are \<open>async\<close> functions that catch everything, so their promises fulfil.
\<close>

definition searchAllSources ::
  "world \<Rightarrow> js_string \<Rightarrow> (js_string \<Rightarrow> int \<Rightarrow> hit list settled) \<Rightarrow> limits \<Rightarrow> error + combined" where
  "searchAllSources w query supabaseSearchFn options =
     (if query = [] then Inl QueryNotNonEmptyString
      else
        let internalResults = supabaseSearchFn query (internalLimit options);
            stackOverflowResults = Fulfilled (searchStackOverflow w query (stackOverflowLimit options));
            youtubeResults = Fulfilled (searchYouTube w query (youtubeLimit options));
            internal = (case internalResults of Fulfilled v \<Rightarrow> v | Rejected \<Rightarrow> []);
            stackoverflow = (case stackOverflowResults of Fulfilled v \<Rightarrow> v | Rejected \<Rightarrow> []);
            youtube = (case youtubeResults of Fulfilled v \<Rightarrow> v | Rejected \<Rightarrow> [])
        in Inr \<lparr>combined_query = query,
                timestamp = clock w,
                total_results = length internal + length stackoverflow + length youtube,
                internal_count = length internal,
                internal_results = map Internal internal,
                stackoverflow_count = length stackoverflow,
                stackoverflow_results = stackoverflow,
                youtube_count = length youtube,
                youtube_results = youtube,
                top_results = combineAndRankResults internal stackoverflow youtube\<rparr>)"

text \<open>A question for concrete runs of the heuristic, created at second 1700000000.\<close>

definition question :: so_item where
  "question =
     \<lparr>so_title = ''VPN drops after sleep'', so_link = ''https://stackoverflow.com/q/1'',
      so_score = 3, so_answer_count = 2, so_view_count = 0, so_is_answered = True,
      so_accepted_answer_id = Some 77, so_creation_date = 1700000000\<rparr>"

text \<open>
  The notions of the specification for rank fusion: the fused score of a candidate by
  its source, with the internal bonus 100 and the flat YouTube score 30, and the one
  list of all candidates.
\<close>

definition fused_score :: "source_item \<Rightarrow> real" where
  "fused_score x =
     (case x of
        Internal h \<Rightarrow> (if relevance_score h = None \<or> relevance_score h = Some 0 then similarity h * 100 else the (relevance_score h)) + 100
      | StackOverflow r \<Rightarrow> of_int (sr_relevance_score r)
      | YouTube v \<Rightarrow> 30)"

definition candidates :: "hit list \<Rightarrow> so_result list \<Rightarrow> yt_result list \<Rightarrow> source_item list" where
  "candidates internal stackoverflow youtube = map Internal internal @ map StackOverflow stackoverflow @ map YouTube youtube"

text \<open>
  Two conditions on an internal hit. The first follows the words "a nonnegative
  relevance score (or nonnegative similarity)": the relevance score is present and
  not negative, or the similarity is not negative. The second is about the operand
  that \<open>relevance_score || similarity * 100\<close> selects: the relevance score when it
  is present and not zero, the similarity otherwise.
\<close>

definition nonneg_relevance_or_similarity :: "hit \<Rightarrow> bool" where
  "nonneg_relevance_or_similarity h \<longleftrightarrow>
     (case relevance_score h of Some r \<Rightarrow> 0 \<le> r | None \<Rightarrow> False) \<or> 0 \<le> similarity h"

definition selected_score_nonneg :: "hit \<Rightarrow> bool" where
  "selected_score_nonneg h =
     (case relevance_score h of
        Some r \<Rightarrow> if r \<noteq> 0 then 0 \<le> r else 0 \<le> similarity h
      | None \<Rightarrow> 0 \<le> similarity h)"

text \<open>
  An internal hit whose relevance score is zero and whose similarity is negative.
\<close>

definition hit_opposite :: hit where
  "hit_opposite = \<lparr>hit_problem = \<lparr>prob_id = 2, title = ''Printer offline''\<rparr>, similarity = - 9 / 10,
                    relevance_score = Some 0\<rparr>"

text \<open>
  The aggregation scenario of the specification: the internal search returns two
  hits, the Stack Overflow request times out, and YouTube returns one video.
\<close>

definition hit_vpn :: hit where
  "hit_vpn = \<lparr>hit_problem = \<lparr>prob_id = 1, title = ''VPN disconnects''\<rparr>, similarity = 1,
               relevance_score = Some 100\<rparr>"

definition hit_slow :: hit where
  "hit_slow = \<lparr>hit_problem = \<lparr>prob_id = 4, title = ''VPN slow''\<rparr>, similarity = 4 / 5,
                relevance_score = None\<rparr>"

definition answer_result :: so_result where
  "answer_result = \<lparr>sr_title = ''VPN drops after sleep'', sr_link = ''https://stackoverflow.com/q/1'',
                     sr_relevance_score = 95\<rparr>"

definition video :: yt_result where
  "video = \<lparr>yr_title = ''Fixing VPN'', yr_link = ''https://www.youtube.com/watch?v=abc'',
             yr_video_id = ''abc'', yr_thumbnail = ''https://i.ytimg.com/vi/abc/mqdefault.jpg''\<rparr>"

definition scenario_world :: world where
  "scenario_world =
     \<lparr>clock = 1700086400000,
      stack_exchange = (\<lambda>q n. HttpFailure None),
      youtube_api =
        (\<lambda>q n. HttpResponse (Some
           [\<lparr>yt_video_id = Some ''abc'',
             yt_snippet = Some \<lparr>sn_title = ''Fixing VPN'',
               sn_thumbnail_medium = Some ''https://i.ytimg.com/vi/abc/mqdefault.jpg''\<rparr>\<rparr>])),
      youtube_key = True\<rparr>"

definition scenario_internal :: "js_string \<Rightarrow> int \<Rightarrow> hit list settled" where
  "scenario_internal q n = Fulfilled [hit_vpn, hit_slow]"

definition scenario_result :: combined where
  "scenario_result =
     \<lparr>combined_query = ascii ''vpn down'', timestamp = 1700086400000, total_results = 3,
      internal_count = 2, internal_results = [Internal hit_vpn, Internal hit_slow],
      stackoverflow_count = 0, stackoverflow_results = [],
      youtube_count = 1, youtube_results = [video],
      top_results =
        [\<lparr>ranked_item = Internal hit_vpn, rank_score = 200\<rparr>,
         \<lparr>ranked_item = Internal hit_slow, rank_score = 180\<rparr>,
         \<lparr>ranked_item = YouTube video, rank_score = 30\<rparr>]\<rparr>"

section \<open>Properties of cosineSimilarity\<close>

lemma cosine_loop:
  "fold (cosine_step a b) [0..<n] (d, p, q) =
     (d + (\<Sum>i<n. a ! i * b ! i), p + (\<Sum>i<n. a ! i * a ! i), q + (\<Sum>i<n. b ! i * b ! i))"
  by (induction n) (simp_all add: algebra_simps)

lemma sum_squares_nth: "(\<Sum>i<length a. a ! i * a ! i) = (\<Sum>x\<leftarrow>a. x\<^sup>2)" for a :: "real list"
proof -
  have "(\<Sum>x\<leftarrow>a. x\<^sup>2) = (\<Sum>i = 0..<length a. (map (\<lambda>x. x\<^sup>2) a) ! i)"
    by (simp add: sum_list_sum_nth)
  also have "\<dots> = (\<Sum>i<length a. a ! i * a ! i)"
    unfolding atLeast0LessThan by (rule sum.cong) (simp_all add: power2_eq_square)
  finally show ?thesis by simp
qed

lemma cosine_loop_result:
  assumes "n = length a" and "n = length b"
  shows "fold (cosine_step a b) [0..<n] (0, 0, 0) = (dot a b, (l2norm a)\<^sup>2, (l2norm b)\<^sup>2)"
proof -
  have nn: "0 \<le> (\<Sum>x\<leftarrow>v. x\<^sup>2)" for v :: "real list"
    by (rule sum_list_nonneg) auto
  have "(\<Sum>i<n. a ! i * a ! i) = (\<Sum>x\<leftarrow>a. x\<^sup>2)"
    and "(\<Sum>i<n. b ! i * b ! i) = (\<Sum>x\<leftarrow>b. x\<^sup>2)"
    using assms sum_squares_nth [of a] sum_squares_nth [of b] by simp_all
  then show ?thesis
    using assms(1) by (simp add: cosine_loop dot_def l2norm_def nn)
qed

lemma cosineSimilarity_closed:
  assumes "length a = length b"
  shows "cosineSimilarity a b =
           Inr (if l2norm a = 0 \<or> l2norm b = 0 then 0 else dot a b / (l2norm a * l2norm b))"
proof -
  have "0 \<le> (\<Sum>x\<leftarrow>v. x\<^sup>2)" for v :: "real list"
    by (rule sum_list_nonneg) auto
  then have "0 \<le> l2norm v" for v
    by (simp add: l2norm_def)
  then have "sqrt ((l2norm v)\<^sup>2) = l2norm v" for v
    by simp
  then show ?thesis
    using assms cosine_loop_result [of "length b" a b]
    by (simp add: cosineSimilarity_def)
qed

text \<open>
  Claim C5. \<open>cosineSimilarity\<close> throws its length-mismatch error exactly when the two
  vectors have different lengths; on vectors of equal length it returns a number.
\<close>

theorem cosineSimilarity_error_iff:
  "(cosineSimilarity a b = Inl VectorLengthMismatch \<longleftrightarrow> length a \<noteq> length b)
   \<and> ((\<exists>e. cosineSimilarity a b = Inl e) \<longleftrightarrow> length a \<noteq> length b)
   \<and> (length a = length b \<longrightarrow> (\<exists>r. cosineSimilarity a b = Inr r))"
  by (cases "length a = length b") (simp_all add: cosineSimilarity_closed, simp_all add: cosineSimilarity_def)

theorem cosineSimilarity_error_iff_witness:
  "cosineSimilarity [1, 0] [1] = Inl VectorLengthMismatch
   \<and> length [1, 0 :: real] \<noteq> length [1 :: real]
   \<and> length [1, 0 :: real] = length [0, 1 :: real]
   \<and> cosineSimilarity [1, 0] [0, 1] = Inr 0"
proof -
  have "cosineSimilarity [1, 0] [0, 1] = Inr 0"
    by (simp add: cosineSimilarity_def)
  then show ?thesis
    using cosineSimilarity_error_iff [of "[1, 0]" "[1]"]
      cosineSimilarity_error_iff [of "[1, 0]" "[0, 1]"]
    by simp
qed

section \<open>Properties of cosineSimilarity in binary64 arithmetic\<close>

lemma round_half_even_bounds:
  "of_int \<lfloor>q\<rfloor> \<le> (of_int (round_half_even q) :: real)"
  "\<bar>of_int (round_half_even q) - q\<bar> \<le> 1 / 2"
  unfolding round_half_even_def by (auto simp: abs_if) linarith+

lemma round_half_even_of_int [simp]: "round_half_even (of_int m) = m"
  by (simp add: round_half_even_def)

lemma round_half_even_nonneg: "0 \<le> q \<Longrightarrow> 0 \<le> round_half_even q"
  using round_half_even_bounds(1) [of q] by (metis of_int_0_le_iff order_trans zero_le_floor of_int_le_iff)

lemma round_half_even_small: "\<bar>q\<bar> < 1 / 2 \<Longrightarrow> round_half_even q = 0"
proof -
  assume "\<bar>q\<bar> < 1 / 2"
  then have "\<bar>(of_int (round_half_even q) :: real)\<bar> < 1"
    using round_half_even_bounds(2) [of q] by linarith
  then show ?thesis by linarith
qed

lemma to_double_zero [simp]: "to_double 0 = Num 0"
  by (simp add: to_double_def)

lemma to_double_nonneg:
  assumes "0 \<le> x"
  shows "to_double x = PosInf \<or> (\<exists>r. to_double x = Num r \<and> 0 \<le> r \<and> r < 2 ^ 1024)"
proof (cases "x = 0")
  case True
  then show ?thesis by simp
next
  case False
  let ?ulp = "(2::real) powr of_int (ulp_exponent x)"
  let ?r = "of_int (round_half_even (x / ?ulp)) * ?ulp"
  have "0 \<le> x / ?ulp" using assms by simp
  then have "0 \<le> ?r"
    using round_half_even_nonneg [of "x / ?ulp"] by simp
  then show ?thesis
    using False by (auto simp: to_double_def Let_def)
qed

lemma ulp_exponent_bound:
  assumes "0 < y" and "y < 2 ^ n"
  shows "ulp_exponent y \<le> max (int n - 1) (- 1022) - 52"
proof -
  have "log 2 y < of_int (int n)"
    using assms by (simp add: log_less_iff powr_realpow)
  then have "\<lfloor>log 2 y\<rfloor> < int n"
    by (simp only: floor_less_iff)
  then show ?thesis
    using assms(1) by (simp add: ulp_exponent_def)
qed

lemma to_double_sqrt_finite:
  assumes "0 \<le> x" and "x < 2 ^ 1024"
  shows "\<exists>s. to_double (sqrt x) = Num s \<and> 0 \<le> s"
proof (cases "x = 0")
  case True
  then show ?thesis by simp
next
  case False
  let ?y = "sqrt x"
  let ?ulp = "(2::real) powr of_int (ulp_exponent ?y)"
  let ?r = "of_int (round_half_even (?y / ?ulp)) * ?ulp"
  have ypos: "0 < ?y" using assms False by simp
  have "?y < sqrt (2 ^ 1024)"
    using assms by (simp only: real_sqrt_less_iff)
  also have "sqrt (2 ^ 1024) = (2::real) ^ 512"
    by (rule real_sqrt_unique) simp_all
  finally have ylt: "?y < 2 ^ 512" .
  have "ulp_exponent ?y \<le> 459"
    using ulp_exponent_bound [OF ypos ylt] by simp
  then have "?ulp \<le> 2 powr of_int 459"
    by (intro powr_mono) simp_all
  then have ulp: "?ulp \<le> 2 ^ 459"
    by simp
  have u0: "0 < ?ulp" by simp
  have "\<bar>of_int (round_half_even (?y / ?ulp)) - ?y / ?ulp\<bar> \<le> 1 / 2"
    by (rule round_half_even_bounds)
  then have "of_int (round_half_even (?y / ?ulp)) \<le> ?y / ?ulp + 1 / 2"
    by linarith
  then have "?r \<le> (?y / ?ulp + 1 / 2) * ?ulp"
    using u0 by (simp only: mult_le_cancel_right_pos)
  also have "\<dots> = ?y + ?ulp / 2"
    using u0 by (simp add: field_simps)
  also have "\<dots> < 2 ^ 512 + 2 ^ 459"
  proof -
    have "(0::real) < 2 ^ 459" by (rule zero_less_power) simp
    then show ?thesis using ylt ulp u0 by linarith
  qed
  also have "\<dots> < (2::real) ^ 1024"
    by simp
  finally have hi: "?r < 2 ^ 1024" .
  have "0 \<le> ?y / ?ulp" using ypos by simp
  then have lo: "0 \<le> ?r"
    using round_half_even_nonneg [of "?y / ?ulp"] by simp
  show ?thesis
    using ypos lo hi by (auto simp: to_double_def Let_def)
qed

lemma to_double_overflow:
  assumes "2 ^ 1024 \<le> x"
  shows "to_double x = PosInf"
proof -
  let ?e = "\<lfloor>log 2 \<bar>x\<bar>\<rfloor>"
  let ?ulp = "(2::real) powr of_int (ulp_exponent x)"
  let ?q = "x / ?ulp"
  have "(0::real) < 2 ^ 1024" by (rule zero_less_power) simp
  with assms have xpos: "0 < x" by linarith
  have "(2::real) powr of_int 1024 \<le> x"
    using assms by (simp add: powr_int)
  then have "of_int 1024 \<le> log 2 x"
    using xpos by (simp only: le_log_iff [of 2 x, simplified, OF xpos])
  then have e: "1024 \<le> ?e"
    using xpos by (simp add: le_floor_iff)
  then have ue: "ulp_exponent x = ?e - 52"
    by (simp add: ulp_exponent_def)
  have "of_int ?e \<le> log 2 x"
    using xpos by simp
  then have pe: "2 powr of_int ?e \<le> x"
    using xpos by (simp only: le_log_iff [of 2 x, simplified, OF xpos])
  have u0: "0 < ?ulp" by simp
  have "(2::real) powr of_int ?e = 2 powr (52 + of_int (?e - 52))"
    by simp
  also have "\<dots> = 2 powr 52 * 2 powr of_int (?e - 52)"
    by (rule powr_add)
  finally have split: "(2::real) powr of_int ?e = 2 powr 52 * ?ulp"
    unfolding ue .
  have "2 powr 52 * ?ulp \<le> ?q * ?ulp"
    using pe u0 unfolding split by simp
  then have "2 powr 52 \<le> ?q"
    using u0 by (simp only: mult_le_cancel_right_pos)
  then have "of_int (2 ^ 52) \<le> ?q"
    by simp
  then have "2 ^ 52 \<le> \<lfloor>?q\<rfloor>"
    by (simp only: le_floor_iff)
  then have "(2::real) ^ 52 \<le> of_int \<lfloor>?q\<rfloor>"
    by (metis of_int_le_iff of_int_numeral of_int_power)
  then have "(2::real) ^ 52 \<le> of_int (round_half_even ?q)"
    using round_half_even_bounds(1) [of ?q] by linarith
  then have "2 ^ 52 * ?ulp \<le> of_int (round_half_even ?q) * ?ulp"
    using u0 by (simp only: mult_le_cancel_right_pos)
  moreover have "2 ^ 52 * ?ulp = 2 powr of_int ?e"
    unfolding split by simp
  moreover have "(2::real) powr of_int 1024 \<le> 2 powr of_int ?e"
    using e by (intro powr_mono) simp_all
  moreover have "(2::real) powr of_int 1024 = 2 ^ 1024"
    by (simp add: powr_int)
  ultimately have "2 ^ 1024 \<le> of_int (round_half_even ?q) * ?ulp"
    by linarith
  then show ?thesis
    using xpos by (simp add: to_double_def Let_def)
qed

lemma two_powr_neg: "(2::real) powr - real n = 1 / 2 ^ n"
  by (simp add: powr_minus powr_realpow inverse_eq_divide)

lemma to_double_underflow:
  assumes "\<bar>x\<bar> < 1 / 2 ^ 1075"
  shows "to_double x = Num 0"
proof (cases "x = 0")
  case True
  then show ?thesis by simp
next
  case False
  let ?ulp = "(2::real) powr of_int (ulp_exponent x)"
  have apos: "0 < \<bar>x\<bar>" using False by simp
  have p1075: "(2::real) powr (- 1075) = 1 / 2 ^ 1075"
    using two_powr_neg [of 1075] by (simp only: of_nat_numeral)
  with assms have small: "\<bar>x\<bar> < 2 powr (- 1075)"
    by (simp only:)
  then have "log 2 \<bar>x\<bar> < - 1075"
    using apos by (subst log_less_iff) simp_all
  then have "log 2 \<bar>x\<bar> < of_int (- 1075)"
    by simp
  then have "\<lfloor>log 2 \<bar>x\<bar>\<rfloor> < - 1075"
    by (simp only: floor_less_iff)
  then have ue: "ulp_exponent x = - 1074"
    by (simp add: ulp_exponent_def)
  have "(2::real) powr (- 1074) = 2 powr (1 + (- 1075))"
    by simp
  also have "\<dots> = 2 powr 1 * 2 powr (- 1075)"
    by (rule powr_add)
  finally have "(2::real) powr (- 1075) = 2 powr (- 1074) / 2"
    by simp
  moreover have "?ulp = 2 powr (- 1074)"
    unfolding ue by simp
  ultimately have "\<bar>x\<bar> < ?ulp / 2"
    using small by (simp only:)
  moreover have "0 < ?ulp" by simp
  ultimately have "\<bar>x / ?ulp\<bar> < 1 / 2"
    by (simp add: field_simps)
  then have "round_half_even (x / ?ulp) = 0"
    by (rule round_half_even_small)
  then show ?thesis
    using False by (simp add: to_double_def Let_def)
qed

lemma to_double_of_nat:
  assumes "0 < n" and "n < 2 ^ 53"
  shows "to_double (real n) = Num (real n)"
proof -
  let ?j = "\<lfloor>log 2 \<bar>real n\<bar>\<rfloor>"
  let ?ulp = "(2::real) powr of_int (ulp_exponent (real n))"
  have npos: "0 < real n" using assms(1) by simp
  have "0 \<le> log 2 (real n)"
    using assms(1) by simp
  then have j0: "0 \<le> ?j" by simp
  have "log 2 (real n) < real 53"
    using assms by (intro log2_of_power_less) simp_all
  then have "log 2 (real n) < of_int 53" by simp
  then have "\<lfloor>log 2 (real n)\<rfloor> < 53"
    by (simp only: floor_less_iff)
  then have j52: "?j \<le> 52" by simp
  define d where "d = nat (52 - ?j)"
  have ue: "ulp_exponent (real n) = ?j - 52"
    using j0 by (simp add: ulp_exponent_def)
  have "of_int (?j - 52) = - real d"
    using j52 by (simp add: d_def)
  then have ulp: "?ulp = 1 / 2 ^ d"
    unfolding ue by (simp only: two_powr_neg)
  then have q: "real n / ?ulp = of_int (int n * 2 ^ d)"
    by simp
  have "of_int (round_half_even (real n / ?ulp)) * ?ulp = real n"
    unfolding q round_half_even_of_int unfolding ulp by simp
  moreover have "real n < 2 ^ 1024"
  proof -
    have "real n < 2 ^ 53" using assms(2) by (metis of_nat_less_iff of_nat_numeral of_nat_power)
    also have "\<dots> < (2::real) ^ 1024" by simp
    finally show ?thesis .
  qed
  ultimately show ?thesis
    using npos by (simp add: to_double_def Let_def)
qed

lemma binary64_loop:
  assumes "n \<le> length a" and "n \<le> length b"
  shows "fold (cosine_step_binary64 a b) [0..<n] (d, p, q) =
           (foldl (\<lambda>acc (x, y). fadd acc (fmul x y)) d (zip (take n a) (take n b)),
            foldl (\<lambda>acc x. fadd acc (fmul x x)) p (take n a),
            foldl (\<lambda>acc x. fadd acc (fmul x x)) q (take n b))"
  using assms
proof (induction n)
  case 0
  show ?case by simp
next
  case (Suc n)
  then have "n < length a" and "n < length b" by simp_all
  then have "take (Suc n) a = take n a @ [a ! n]" and "take (Suc n) b = take n b @ [b ! n]"
    by (simp_all add: take_Suc_conv_app_nth)
  moreover have "length (take n a) = length (take n b)"
    using Suc.prems by simp
  ultimately show ?case
    using Suc by simp
qed

lemma cosineSimilarity_binary64_closed:
  assumes "length a = length b"
  shows "cosineSimilarity_binary64 a b =
           Inr (if fmul (fsqrt (sum_squares_binary64 a)) (fsqrt (sum_squares_binary64 b)) = Num 0
                then Num 0
                else fdiv (dot_binary64 a b)
                       (fmul (fsqrt (sum_squares_binary64 a)) (fsqrt (sum_squares_binary64 b))))"
  using assms binary64_loop [of "length b" a b "Num 0" "Num 0" "Num 0"]
  by (simp add: cosineSimilarity_binary64_def sum_squares_binary64_def dot_binary64_def)

lemma sum_squares_step:
  assumes "acc = PosInf \<or> (\<exists>r. acc = Num r \<and> 0 \<le> r \<and> r < 2 ^ 1024)" and "is_finite x"
  shows "fadd acc (fmul x x) = PosInf
         \<or> (\<exists>r. fadd acc (fmul x x) = Num r \<and> 0 \<le> r \<and> r < 2 ^ 1024)"
proof -
  from assms(2) obtain v where x: "x = Num v"
    by (cases x) (simp_all add: is_finite_def)
  have sq: "fmul x x = PosInf \<or> (\<exists>r. fmul x x = Num r \<and> 0 \<le> r \<and> r < 2 ^ 1024)"
    unfolding x using to_double_nonneg [of "v * v"] by simp
  show ?thesis
  proof (cases "acc = PosInf \<or> fmul x x = PosInf")
    case True
    with assms(1) sq show ?thesis by auto
  next
    case False
    with assms(1) sq obtain r1 r2 where "acc = Num r1" "0 \<le> r1" "fmul x x = Num r2" "0 \<le> r2"
      by auto
    then show ?thesis
      using to_double_nonneg [of "r1 + r2"] by simp
  qed
qed

lemma sum_squares_fold_range:
  assumes "list_all is_finite v" and "acc = PosInf \<or> (\<exists>r. acc = Num r \<and> 0 \<le> r \<and> r < 2 ^ 1024)"
  shows "foldl (\<lambda>acc x. fadd acc (fmul x x)) acc v = PosInf
         \<or> (\<exists>r. foldl (\<lambda>acc x. fadd acc (fmul x x)) acc v = Num r \<and> 0 \<le> r \<and> r < 2 ^ 1024)"
  using assms
proof (induction v arbitrary: acc)
  case Nil
  then show ?case by simp
next
  case (Cons x v)
  from Cons.prems have "is_finite x" and "list_all is_finite v" by simp_all
  with Cons.prems(2) have "fadd acc (fmul x x) = PosInf
         \<or> (\<exists>r. fadd acc (fmul x x) = Num r \<and> 0 \<le> r \<and> r < 2 ^ 1024)"
    by (intro sum_squares_step)
  with Cons.IH [OF \<open>list_all is_finite v\<close>] show ?case by simp
qed

lemma sum_squares_range:
  assumes "list_all is_finite v"
  shows "sum_squares_binary64 v = PosInf
         \<or> (\<exists>r. sum_squares_binary64 v = Num r \<and> 0 \<le> r \<and> r < 2 ^ 1024)"
proof -
  have "(2::real) ^ 1024 > 0" by (rule zero_less_power) simp
  then have "Num 0 = PosInf \<or> (\<exists>r. Num 0 = Num r \<and> 0 \<le> r \<and> r < 2 ^ 1024)"
    by simp
  with assms show ?thesis
    unfolding sum_squares_binary64_def by (rule sum_squares_fold_range)
qed

lemma sum_squares_zero:
  "list_all (\<lambda>x. x = Num 0) a \<Longrightarrow> foldl (\<lambda>acc x. fadd acc (fmul x x)) (Num 0) a = Num 0"
  by (induction a) simp_all

lemma dot_zero_left:
  "list_all (\<lambda>x. x = Num 0) a \<Longrightarrow> list_all is_finite b \<Longrightarrow>
     foldl (\<lambda>acc (x, y). fadd acc (fmul x y)) (Num 0) (zip a b) = Num 0"
proof (induction a arbitrary: b)
  case Nil
  show ?case by simp
next
  case (Cons x a)
  show ?case
  proof (cases b)
    case Nil
    then show ?thesis by simp
  next
    case (Cons y b')
    then obtain v where "y = Num v"
      using Cons.prems(2) by (cases y) (simp_all add: is_finite_def)
    with Cons Cons.prems Cons.IH [of b'] show ?thesis by simp
  qed
qed

lemma dot_zero_right:
  "list_all (\<lambda>x. x = Num 0) a \<Longrightarrow> list_all is_finite b \<Longrightarrow>
     foldl (\<lambda>acc (x, y). fadd acc (fmul x y)) (Num 0) (zip b a) = Num 0"
proof (induction a arbitrary: b)
  case Nil
  show ?case by simp
next
  case (Cons x a)
  show ?case
  proof (cases b)
    case Nil
    then show ?thesis by simp
  next
    case (Cons y b')
    then obtain v where "y = Num v"
      using Cons.prems(2) by (cases y) (simp_all add: is_finite_def)
    with Cons Cons.prems Cons.IH [of b'] show ?thesis by simp
  qed
qed

text \<open>
  Claim C4, as the code has it in binary64 arithmetic. Let two vectors have the same
  length, the one all zeros and the other of finite components. When the accumulated
  sum of squares of the other is finite, \<open>cosineSimilarity\<close> returns \<open>0\<close>, not an
  error and not \<open>NaN\<close>, in either argument order; when that sum has overflowed to
  infinity, the magnitude is zero times infinity, the test for zero fails and the
  result is \<open>NaN\<close>. For any two vectors of the same length the result is \<open>0\<close> when
  the rounded product of the square roots of the two accumulated sums of squares is
  zero, and the rounded quotient of the accumulated dot product by that product
  otherwise.
\<close>

theorem cosineSimilarity_binary64_zero_vector:
  assumes "length a = length b" and "list_all (\<lambda>x. x = Num 0) a" and "list_all is_finite b"
  shows "(sum_squares_binary64 b \<noteq> PosInf \<longrightarrow>
            cosineSimilarity_binary64 a b = Inr (Num 0) \<and> cosineSimilarity_binary64 b a = Inr (Num 0))
       \<and> (sum_squares_binary64 b = PosInf \<longrightarrow>
            cosineSimilarity_binary64 a b = Inr NaN \<and> cosineSimilarity_binary64 b a = Inr NaN)
       \<and> (length u = length v \<longrightarrow>
            cosineSimilarity_binary64 u v =
              Inr (if fmul (fsqrt (sum_squares_binary64 u)) (fsqrt (sum_squares_binary64 v)) = Num 0
                   then Num 0
                   else fdiv (dot_binary64 u v)
                          (fmul (fsqrt (sum_squares_binary64 u)) (fsqrt (sum_squares_binary64 v)))))"
proof -
  have za: "sum_squares_binary64 a = Num 0"
    using assms(2) by (simp add: sum_squares_binary64_def sum_squares_zero)
  have d1: "dot_binary64 a b = Num 0" and d2: "dot_binary64 b a = Num 0"
    using assms(2,3) by (simp_all add: dot_binary64_def dot_zero_left dot_zero_right)
  have closed1: "cosineSimilarity_binary64 a b =
      Inr (if fmul (Num 0) (fsqrt (sum_squares_binary64 b)) = Num 0 then Num 0
           else fdiv (Num 0) (fmul (Num 0) (fsqrt (sum_squares_binary64 b))))"
    using cosineSimilarity_binary64_closed [OF assms(1)] by (simp add: za d1)
  have closed2: "cosineSimilarity_binary64 b a =
      Inr (if fmul (fsqrt (sum_squares_binary64 b)) (Num 0) = Num 0 then Num 0
           else fdiv (Num 0) (fmul (fsqrt (sum_squares_binary64 b)) (Num 0)))"
    using cosineSimilarity_binary64_closed [OF assms(1) [symmetric]] by (simp add: za d2)
  have finite: "cosineSimilarity_binary64 a b = Inr (Num 0) \<and> cosineSimilarity_binary64 b a = Inr (Num 0)"
    if "sum_squares_binary64 b \<noteq> PosInf"
  proof -
    from that sum_squares_range [OF assms(3)]
    obtain r where r: "sum_squares_binary64 b = Num r" "0 \<le> r" "r < 2 ^ 1024"
      by auto
    then obtain s where "to_double (sqrt r) = Num s"
      using to_double_sqrt_finite [of r] by auto
    with r show ?thesis
      unfolding closed1 closed2 by simp
  qed
  have overflow: "cosineSimilarity_binary64 a b = Inr NaN \<and> cosineSimilarity_binary64 b a = Inr NaN"
    if "sum_squares_binary64 b = PosInf"
    unfolding closed1 closed2 that by simp
  show ?thesis
    using finite overflow cosineSimilarity_binary64_closed [of u v] by blast
qed

lemma to_double_examples:
  "to_double 1 = Num 1" "to_double 5 = Num 5" "to_double 9 = Num 9"
  "to_double 16 = Num 16" "to_double 25 = Num 25"
  using to_double_of_nat [of 1] to_double_of_nat [of 5] to_double_of_nat [of 9]
    to_double_of_nat [of 16] to_double_of_nat [of 25]
  by simp_all

lemma sum_squares_3_4: "sum_squares_binary64 [Num 3, Num 4] = Num 25"
  by (simp add: sum_squares_binary64_def to_double_examples)

lemma to_double_huge: "to_double (2 ^ 600 * 2 ^ 600) = PosInf"
  by (rule to_double_overflow) simp

lemma to_double_tiny: "to_double (1 / 2 ^ 600 * (1 / 2 ^ 600)) = Num 0"
  by (rule to_double_underflow) simp

lemma sum_squares_huge: "sum_squares_binary64 [Num (2 ^ 600), Num 0] = PosInf"
  using to_double_huge by (simp add: sum_squares_binary64_def)

lemma sum_squares_tiny: "sum_squares_binary64 [Num (1 / 2 ^ 600), Num 0] = Num 0"
  using to_double_tiny by (simp add: sum_squares_binary64_def)

theorem cosineSimilarity_binary64_zero_vector_witness:
  "length [Num 0, Num 0] = length [Num 3, Num 4]
   \<and> list_all (\<lambda>x. x = Num 0) [Num 0, Num 0]
   \<and> list_all is_finite [Num 3, Num 4]
   \<and> sum_squares_binary64 [Num 3, Num 4] = Num 25
   \<and> cosineSimilarity_binary64 [Num 0, Num 0] [Num 3, Num 4] = Inr (Num 0)
   \<and> cosineSimilarity_binary64 [Num 3, Num 4] [Num 0, Num 0] = Inr (Num 0)
   \<and> list_all is_finite [Num (2 ^ 600), Num 0]
   \<and> sum_squares_binary64 [Num (2 ^ 600), Num 0] = PosInf
   \<and> cosineSimilarity_binary64 [Num (2 ^ 600), Num 0] [Num 0, Num 0] = Inr NaN
   \<and> cosineSimilarity_binary64 [Num 3, Num 4] [Num 3, Num 4] = Inr (Num 1)"
proof -
  have l: "length [Num 0, Num 0] = length [Num 3, Num 4]"
    and l': "length [Num 0, Num 0] = length [Num (2 ^ 600), Num 0]"
    and z: "list_all (\<lambda>x. x = Num 0) [Num 0, Num 0]"
    and f: "list_all is_finite [Num 3, Num 4]"
    and f': "list_all is_finite [Num (2 ^ 600), Num 0]"
    by (simp_all add: is_finite_def)
  have 1: "cosineSimilarity_binary64 [Num 0, Num 0] [Num 3, Num 4] = Inr (Num 0)
           \<and> cosineSimilarity_binary64 [Num 3, Num 4] [Num 0, Num 0] = Inr (Num 0)"
    using cosineSimilarity_binary64_zero_vector [OF l z f] sum_squares_3_4 by simp
  have 2: "cosineSimilarity_binary64 [Num (2 ^ 600), Num 0] [Num 0, Num 0] = Inr NaN"
    using cosineSimilarity_binary64_zero_vector [OF l' z f'] sum_squares_huge by blast
  have "sqrt 25 = 5"
    using real_sqrt_abs [of 5] by simp
  then have 3: "cosineSimilarity_binary64 [Num 3, Num 4] [Num 3, Num 4] = Inr (Num 1)"
    using cosineSimilarity_binary64_zero_vector [OF l z f, of "[Num 3, Num 4]" "[Num 3, Num 4]"]
    by (simp add: sum_squares_3_4 dot_binary64_def to_double_examples)
  show ?thesis
    using l z f f' 1 2 3 sum_squares_3_4 sum_squares_huge by blast
qed

text \<open>
  The claim as stated fails in both parts. A zero vector against a vector with the
  component two to the power 600 gives \<open>NaN\<close>: the sum of squares overflows. A
  vector with the component two to the power \<open>-600\<close>, which is not zero, gives \<open>0\<close>
  against itself where the quotient of the claim is \<open>1\<close>: the squares underflow to
  zero.
\<close>

theorem cosineSimilarity_nan_counterexample:
  "cosineSimilarity_binary64 [Num 0, Num 0] [Num (2 ^ 600), Num 0] = Inr NaN
   \<and> cosineSimilarity_binary64 [Num (1 / 2 ^ 600), Num 0] [Num (1 / 2 ^ 600), Num 0] = Inr (Num 0)"
proof -
  have "sum_squares_binary64 [Num 0, Num 0] = Num 0"
    by (simp add: sum_squares_binary64_def)
  then show ?thesis
    using sum_squares_huge sum_squares_tiny to_double_tiny
    by (simp add: cosineSimilarity_binary64_closed dot_binary64_def)
qed

section \<open>Properties of generateEmbedding\<close>

lemma ascii_Nil_iff [simp]: "ascii s = [] \<longleftrightarrow> s = []"
  by (simp add: ascii_def)

lemma trim_Nil [simp]: "trim [] = []"
  by (simp add: trim_def)

lemma trim_empty_iff: "trim t = [] \<longleftrightarrow> list_all is_whitespace t"
proof -
  have "dropWhile is_whitespace (rev (dropWhile is_whitespace t)) = [] \<longleftrightarrow> dropWhile is_whitespace t = []"
  proof
    assume a: "dropWhile is_whitespace (rev (dropWhile is_whitespace t)) = []"
    show "dropWhile is_whitespace t = []"
    proof (rule ccontr)
      assume n: "dropWhile is_whitespace t \<noteq> []"
      then have "\<not> is_whitespace (hd (dropWhile is_whitespace t))"
        by (rule hd_dropWhile)
      moreover have "hd (dropWhile is_whitespace t) \<in> set (rev (dropWhile is_whitespace t))"
        using n by simp
      ultimately show False
        using a by (auto simp: dropWhile_eq_Nil_conv simp del: set_rev)
    qed
  next
    assume "dropWhile is_whitespace t = []"
    then show "dropWhile is_whitespace (rev (dropWhile is_whitespace t)) = []"
      by (simp only: rev.simps dropWhile.simps)
  qed
  then show ?thesis
    by (simp add: trim_def dropWhile_eq_Nil_conv list_all_iff)
qed

lemma fit_dimensions_length: "length (fit_dimensions v d) = d"
  by (simp add: fit_dimensions_def)

lemma l2norm_append_zeros: "l2norm (v @ replicate n 0) = l2norm v"
  by (simp add: l2norm_def sum_list_replicate)

lemma fit_dimensions_l2norm: "length v \<le> d \<Longrightarrow> l2norm (fit_dimensions v d) = l2norm v"
  by (simp add: fit_dimensions_def l2norm_append_zeros)

lemma generateEmbedding_blank:
  "trim t = [] \<Longrightarrow>
     generateEmbedding b t d s =
       (Inl (if t = [] then TextNotNonEmptyString else TextEmptyAfterTrim), s)"
  by (simp add: generateEmbedding_def)

lemma generateEmbedding_nonblank:
  assumes "trim t \<noteq> []"
  shows "generateEmbedding b t d s =
     (if \<not> embedder s \<and> \<not> pipeline_loads b then (Inl ModelFailure, s\<lparr>loads := Suc (loads s)\<rparr>)
      else
        let s1 = (if embedder s then s else s\<lparr>embedder := True, loads := Suc (loads s)\<rparr>);
            s2 = s1\<lparr>calls := calls s1 @ [trim t]\<rparr>
        in (case infer b (trim t) of
              None \<Rightarrow> (Inl ModelFailure, s2)
            | Some v \<Rightarrow> (Inr (fit_dimensions v d), s2)))"
proof -
  from assms have "t \<noteq> []" by auto
  with assms show ?thesis
    by (simp add: generateEmbedding_def initializeModel_def Let_def)
qed

text \<open>
  Claim C8. A text that is empty, or empty after trimming (it holds nothing but white
  space and line terminators, of ASCII or not), makes \<open>generateEmbedding\<close> fail with
  one of its two empty-input errors, and the state is the one before the call: the
  pipeline was not loaded and the model was not called. A text that is not empty after
  trimming never gets either of these errors.
\<close>

theorem generateEmbedding_empty_input:
  "(trim t = [] \<longleftrightarrow> list_all is_whitespace t)
   \<and> (trim t = [] \<longrightarrow>
      (fst (generateEmbedding b t d s) = Inl TextNotNonEmptyString
         \<or> fst (generateEmbedding b t d s) = Inl TextEmptyAfterTrim)
      \<and> snd (generateEmbedding b t d s) = s)
   \<and> (trim t \<noteq> [] \<longrightarrow>
      fst (generateEmbedding b t d s) \<noteq> Inl TextNotNonEmptyString
      \<and> fst (generateEmbedding b t d s) \<noteq> Inl TextEmptyAfterTrim)"
proof (cases "trim t = []")
  case True
  then show ?thesis
    using trim_empty_iff [of t] by (simp add: generateEmbedding_blank)
next
  case False
  then show ?thesis
    using trim_empty_iff [of t]
    by (simp add: generateEmbedding_nonblank Let_def split: option.splits)
qed

theorem generateEmbedding_empty_input_witness:
  "trim (ascii '' \<newline> '') = []
   \<and> generateEmbedding short_backend (ascii '' \<newline> '') 384 fresh_state = (Inl TextEmptyAfterTrim, fresh_state)
   \<and> trim [0x00A0, 0x3000, 0xFEFF] = []
   \<and> generateEmbedding short_backend [0x00A0, 0x3000, 0xFEFF] 384 fresh_state = (Inl TextEmptyAfterTrim, fresh_state)
   \<and> generateEmbedding short_backend [] 384 fresh_state = (Inl TextNotNonEmptyString, fresh_state)
   \<and> trim (ascii '' vpn down '') = ascii ''vpn down''
   \<and> fst (generateEmbedding short_backend (ascii '' vpn down '') 384 fresh_state) \<noteq> Inl TextEmptyAfterTrim
   \<and> calls (snd (generateEmbedding short_backend (ascii '' vpn down '') 384 fresh_state)) = [ascii ''vpn down'']"
proof -
  have t1: "trim (ascii '' \<newline> '') = []"
    by (simp add: trim_def is_whitespace_def ascii_def)
  have t2: "trim (ascii '' vpn down '') = ascii ''vpn down''"
    by (simp add: trim_def is_whitespace_def ascii_def)
  have t3: "trim [0x00A0, 0x3000, 0xFEFF] = []"
    by (simp add: trim_def is_whitespace_def)
  have c: "calls (snd (generateEmbedding short_backend (ascii '' vpn down '') 384 fresh_state)) = [ascii ''vpn down'']"
    using t2 by (simp add: generateEmbedding_nonblank short_backend_def fresh_state_def)
  have e1: "generateEmbedding short_backend (ascii '' \<newline> '') 384 fresh_state = (Inl TextEmptyAfterTrim, fresh_state)"
    using generateEmbedding_empty_input [of "ascii '' \<newline> ''" short_backend 384 fresh_state] t1
    by (auto simp: generateEmbedding_def prod_eq_iff)
  have e2: "generateEmbedding short_backend [0x00A0, 0x3000, 0xFEFF] 384 fresh_state = (Inl TextEmptyAfterTrim, fresh_state)"
    using generateEmbedding_empty_input [of "[0x00A0, 0x3000, 0xFEFF]" short_backend 384 fresh_state] t3
    by (auto simp: generateEmbedding_def prod_eq_iff)
  have e3: "generateEmbedding short_backend [] 384 fresh_state = (Inl TextNotNonEmptyString, fresh_state)"
    using generateEmbedding_empty_input [of "[]" short_backend 384 fresh_state]
    by (auto simp: generateEmbedding_def prod_eq_iff)
  have e4: "fst (generateEmbedding short_backend (ascii '' vpn down '') 384 fresh_state) \<noteq> Inl TextEmptyAfterTrim"
    using generateEmbedding_empty_input [of "ascii '' vpn down ''" short_backend 384 fresh_state] t2
    by simp
  show ?thesis
    using t1 t2 t3 c e1 e2 e3 e4 by blast
qed

text \<open>
  Claim C6, as the code has it. For a text that is not empty after trimming, with the
  pipeline loaded or loadable and the model yielding a vector \<open>v\<close>, the call with the
  default \<open>dimensions = 384\<close> returns exactly 384 numbers: \<open>v\<close> itself when it has 384
  components, \<open>v\<close> padded with zeros when it is shorter, the first 384 components of
  \<open>v\<close> when it is longer. When \<open>v\<close> has at most 384 components the result has the L2
  norm of \<open>v\<close>, so it is a unit vector when the model's output is one.
\<close>

theorem generateEmbedding_dimension:
  assumes "trim t \<noteq> []" and "embedder s \<or> pipeline_loads b" and "infer b (trim t) = Some v"
  shows "\<exists>e. fst (generateEmbedding b t 384 s) = Inr e
           \<and> length e = 384
           \<and> e = (if length v < 384 then v @ replicate (384 - length v) 0 else take 384 v)
           \<and> (length v \<le> 384 \<longrightarrow> l2norm e = l2norm v)"
proof -
  have "fst (generateEmbedding b t 384 s) = Inr (fit_dimensions v 384)"
    using assms by (auto simp: generateEmbedding_nonblank Let_def)
  moreover have "fit_dimensions v 384 = (if length v < 384 then v @ replicate (384 - length v) 0 else take 384 v)"
    by (simp add: fit_dimensions_def)
  ultimately show ?thesis
    using fit_dimensions_length [of v 384] fit_dimensions_l2norm [of v 384] by metis
qed

theorem generateEmbedding_dimension_witness:
  "trim (ascii ''vpn down'') \<noteq> []
   \<and> pipeline_loads short_backend
   \<and> infer short_backend (trim (ascii ''vpn down'')) = Some [3 / 5, 4 / 5]
   \<and> fst (generateEmbedding short_backend (ascii ''vpn down'') 384 fresh_state) = Inr ([3 / 5, 4 / 5] @ replicate 382 0)
   \<and> length ([3 / 5, 4 / 5 :: real] @ replicate 382 0) = 384
   \<and> l2norm ([3 / 5, 4 / 5] @ replicate 382 0) = 1"
proof -
  have t: "trim (ascii ''vpn down'') = (ascii ''vpn down'')"
    by (simp add: trim_def is_whitespace_def ascii_def)
  have n: "l2norm [3 / 5, 4 / 5] = 1"
    by (simp add: l2norm_def power2_eq_square)
  show ?thesis
    using generateEmbedding_dimension [of "(ascii ''vpn down'')" fresh_state short_backend "[3 / 5, 4 / 5]"] t n
    by (auto simp: short_backend_def)
qed

text \<open>
  The claim as stated fails where the model yields more than 384 numbers: the unit
  vector of 385 components with a one in the last place is cut to the zero vector.
\<close>

theorem generateEmbedding_unit_norm_counterexample:
  "trim (ascii ''vpn down'') \<noteq> []
   \<and> infer oversized_backend (trim (ascii ''vpn down'')) = Some (replicate 384 0 @ [1])
   \<and> l2norm (replicate 384 0 @ [1]) = 1
   \<and> fst (generateEmbedding oversized_backend (ascii ''vpn down'') 384 fresh_state) = Inr (replicate 384 0)
   \<and> l2norm (replicate 384 0) \<noteq> 1"
proof -
  have t: "trim (ascii ''vpn down'') = (ascii ''vpn down'')"
    by (simp add: trim_def is_whitespace_def ascii_def)
  have n: "l2norm (replicate 384 0 @ [1]) = 1" and z: "l2norm (replicate 384 0) = 0"
    by (simp_all add: l2norm_def sum_list_replicate)
  have "fst (generateEmbedding oversized_backend (ascii ''vpn down'') 384 fresh_state) = Inr (replicate 384 0)"
    using t by (simp add: generateEmbedding_nonblank oversized_backend_def fresh_state_def fit_dimensions_def)
  then show ?thesis
    using t n z by (simp add: oversized_backend_def)
qed

section \<open>Properties of the ranking step\<close>

lemma insert_by_insort: "insert_by (\<lambda>a b. k b - k a) x ys = insort_key (\<lambda>x. - k x) x ys"
  by (induction ys) auto

lemma js_sort_descending: "js_sort (\<lambda>a b. k b - k a) xs = sort_key (\<lambda>x. - k x) xs"
proof -
  have "insert_by (\<lambda>a b. k b - k a) = insort_key (\<lambda>x. - k x)"
    by (intro ext) (rule insert_by_insort)
  then show ?thesis
    by (simp add: js_sort_def sort_key_def)
qed

lemma sorted_wrt_sort_key_descending:
  "sorted_wrt (\<lambda>a b. k b \<le> k a) (sort_key (\<lambda>x. - k x) xs)" for k :: "'a \<Rightarrow> real"
proof -
  have "sorted (map (\<lambda>x. - k x) (sort_key (\<lambda>x. - k x) xs))"
    by (rule sorted_sort_key)
  then show ?thesis
    by (simp add: sorted_map)
qed

lemma slice0_nonneg: "0 \<le> n \<Longrightarrow> slice0 xs n = take (nat n) xs"
  by (simp add: slice0_def)

lemma filter_take_prefix: "\<exists>rest. filter P xs = filter P (take n xs) @ rest"
proof -
  have "filter P xs = filter P (take n xs @ drop n xs)" by simp
  then show ?thesis unfolding filter_append by blast
qed

text \<open>
  Claim C3, for a limit that is not negative. The ranking step of \<open>semanticSearch\<close>
  keeps the candidates whose similarity is at least the threshold, sorts them by
  descending similarity with candidates of equal similarity in their original order,
  and returns the first \<open>limit\<close> of them: never more than \<open>limit\<close> items, none below
  the threshold, and all survivors when there are at most \<open>limit\<close>.
\<close>

theorem topMatches_rank:
  assumes "0 \<le> limit"
  shows "topMatches sims threshold limit =
           take (nat limit) (sort_key (\<lambda>m. - match_similarity m)
             (filter (\<lambda>m. threshold \<le> match_similarity m) sims))
       \<and> int (length (topMatches sims threshold limit)) \<le> limit
       \<and> length (topMatches sims threshold limit) =
           min (nat limit) (length (filter (\<lambda>m. threshold \<le> match_similarity m) sims))
       \<and> list_all (\<lambda>m. threshold \<le> match_similarity m) (topMatches sims threshold limit)
       \<and> sorted_wrt (\<lambda>a b. match_similarity b \<le> match_similarity a) (topMatches sims threshold limit)
       \<and> (length (filter (\<lambda>m. threshold \<le> match_similarity m) sims) \<le> nat limit \<longrightarrow>
            mset (topMatches sims threshold limit) = mset (filter (\<lambda>m. threshold \<le> match_similarity m) sims))
       \<and> (\<forall>k. \<exists>rest.
            filter (\<lambda>m. match_similarity m = k) (filter (\<lambda>m. threshold \<le> match_similarity m) sims) =
            filter (\<lambda>m. match_similarity m = k) (topMatches sims threshold limit) @ rest)"
proof -
  let ?surv = "filter (\<lambda>m. threshold \<le> match_similarity m) sims"
  let ?sorted = "sort_key (\<lambda>m. - match_similarity m) ?surv"
  have eq: "topMatches sims threshold limit = take (nat limit) ?sorted"
    using assms by (simp add: topMatches_def js_sort_descending slice0_nonneg)
  have len: "length (take (nat limit) ?sorted) = min (nat limit) (length ?surv)"
    by simp
  have bound: "int (length (take (nat limit) ?sorted)) \<le> limit"
    using assms by simp
  have floor: "list_all (\<lambda>m. threshold \<le> match_similarity m) (take (nat limit) ?sorted)"
    by (auto simp: list_all_iff dest!: in_set_takeD)
  have sorted: "sorted_wrt (\<lambda>a b. match_similarity b \<le> match_similarity a) (take (nat limit) ?sorted)"
    by (rule sorted_wrt_take) (rule sorted_wrt_sort_key_descending)
  have all: "length ?surv \<le> nat limit \<longrightarrow> mset (take (nat limit) ?sorted) = mset ?surv"
    by simp
  have stable: "\<exists>rest. filter (\<lambda>m. match_similarity m = k) ?surv =
                  filter (\<lambda>m. match_similarity m = k) (take (nat limit) ?sorted) @ rest" for k
  proof -
    have "filter (\<lambda>m. - match_similarity m = - k) ?sorted = filter (\<lambda>m. - match_similarity m = - k) ?surv"
      by (rule sort_key_stable)
    then have "filter (\<lambda>m. match_similarity m = k) ?sorted = filter (\<lambda>m. match_similarity m = k) ?surv"
      by simp
    then show ?thesis
      using filter_take_prefix [of "\<lambda>m. match_similarity m = k" ?sorted "nat limit"] by simp
  qed
  show ?thesis
    unfolding eq using len bound floor sorted all stable by blast
qed

theorem topMatches_rank_witness:
  "(0::int) \<le> 2
   \<and> topMatches [match_a, match_b, match_c, match_d] (1 / 10) 2 = [match_b, match_d]
   \<and> int (length (topMatches [match_a, match_b, match_c, match_d] (1 / 10) 2)) \<le> 2
   \<and> sorted_wrt (\<lambda>a b. match_similarity b \<le> match_similarity a)
        (topMatches [match_a, match_b, match_c, match_d] (1 / 10) 2)"
proof -
  have h: "(0::int) \<le> 2" by simp
  have e: "topMatches [match_a, match_b, match_c, match_d] (1 / 10) 2 = [match_b, match_d]"
    by (simp add: topMatches_def js_sort_def slice0_def match_a_def match_b_def match_c_def match_d_def)
  have "int (length (topMatches [match_a, match_b, match_c, match_d] (1 / 10) 2)) \<le> 2"
    and "sorted_wrt (\<lambda>a b. match_similarity b \<le> match_similarity a)
          (topMatches [match_a, match_b, match_c, match_d] (1 / 10) 2)"
    using topMatches_rank [OF h, of "[match_a, match_b, match_c, match_d]" "1 / 10"] by blast+
  with h e show ?thesis by blast
qed

text \<open>
  With a negative limit \<open>slice\<close> counts from the end: limit \<open>-1\<close> drops the last
  survivor only, and two items are returned.
\<close>

theorem topMatches_negative_limit_counterexample:
  "topMatches [match_a, match_b, match_c, match_d] (1 / 10) (- 1) = [match_b, match_d]
   \<and> \<not> int (length (topMatches [match_a, match_b, match_c, match_d] (1 / 10) (- 1))) \<le> - 1"
  by (simp add: topMatches_def js_sort_def slice0_def match_a_def match_b_def match_c_def match_d_def)

section \<open>Properties of semanticSearch\<close>

lemma replace_leading_bracket_id [simp]: "replace_leading_bracket s = s"
  by (cases s) auto

lemma replace_trailing_bracket_id [simp]: "replace_trailing_bracket s = s"
proof (cases "s \<noteq> [] \<and> last s = CHR '']''")
  case True
  then have "butlast s @ [last s] = s" by (intro append_butlast_last_id) simp
  with True show ?thesis by (simp add: replace_trailing_bracket_def)
next
  case False
  then show ?thesis by (auto simp add: replace_trailing_bracket_def)
qed


















section \<open>Properties of the Stack Overflow heuristic\<close>

lemma round_add_of_int: "round (x + of_int n) = round x + n" for x :: real
proof -
  have "x + of_int n + 1 / 2 = (x + 1 / 2) + of_int n" by simp
  then show ?thesis
    unfolding round_def by (simp only: floor_add_int [symmetric])
qed

lemma recency_in_milliseconds:
  "(of_int now - of_int created * 1000) / (1000 * 60 * 60 * 24) < (365 :: real)
     \<longleftrightarrow> now - created * 1000 < 365 * 86400000"
proof -
  have "(of_int now - of_int created * 1000) / (1000 * 60 * 60 * 24) < (365 :: real)
     \<longleftrightarrow> (of_int (now - created * 1000) :: real) < of_int (365 * 86400000)"
    by (simp add: field_simps)
  then show ?thesis
    by (simp only: of_int_less_iff)
qed

lemma relevance_closed:
  "calculateStackOverflowRelevance now item =
     5 * so_score item + 10 * int (so_answer_count item)
     + (if so_is_answered item then 20 else 0)
     + (if so_accepted_answer_id item = None \<or> so_accepted_answer_id item = Some 0 then 0 else 30)
     + (if now - so_creation_date item * 1000 < 365 * 86400000 then 10 else 0)
     + round (5 * log 10 (real (so_view_count item) + 1))"
proof -
  let ?views = "5 * log 10 (real (so_view_count item) + 1)"
  let ?fixed = "5 * so_score item + 10 * int (so_answer_count item)
     + (if so_is_answered item then 20 else 0)
     + (if so_accepted_answer_id item = None \<or> so_accepted_answer_id item = Some 0 then 0 else 30)
     + (if now - so_creation_date item * 1000 < 365 * 86400000 then 10 else 0)"
  have "calculateStackOverflowRelevance now item = round (?views + of_int ?fixed)"
    unfolding calculateStackOverflowRelevance_def Let_def recency_in_milliseconds
    by (rule arg_cong [where f = round]) (simp split: option.splits)
  then show ?thesis
    by (simp only: round_add_of_int)
qed

lemma log10_times_ten: "log 10 (real (10 * v + 9) + 1) = log 10 (real v + 1) + 1"
proof -
  have e: "real (10 * v + 9) + 1 = 10 * (real v + 1)" by simp
  have "log 10 (10 * (real v + 1)) = log 10 10 + log 10 (real v + 1)"
    by (rule log_mult_pos) (simp_all add: add_nonneg_pos)
  then show ?thesis
    unfolding e by simp
qed

lemma relevance_views:
  "calculateStackOverflowRelevance now (item\<lparr>so_view_count := v\<rparr>) - calculateStackOverflowRelevance now item =
     round (5 * log 10 (real v + 1)) - round (5 * log 10 (real (so_view_count item) + 1))"
  unfolding relevance_closed by simp

text \<open>
  Claim C7. The Stack Overflow heuristic is the sum of five times the vote score, ten
  times the answer count, 20 for an answered question, 30 when an accepted answer is
  present, 10 exactly when the question is less than 365 days old, and the rounded
  logarithmic view term \<open>5 * log10(views + 1)\<close>. The view term grows with the
  logarithm only: ten times the views (plus one) add 5 points, and more views never
  lower the score.
\<close>

theorem calculateStackOverflowRelevance_components:
  "calculateStackOverflowRelevance now item =
     5 * so_score item + 10 * int (so_answer_count item)
     + (if so_is_answered item then 20 else 0)
     + (if so_accepted_answer_id item = None \<or> so_accepted_answer_id item = Some 0 then 0 else 30)
     + (if now - so_creation_date item * 1000 < 365 * 86400000 then 10 else 0)
     + round (5 * log 10 (real (so_view_count item) + 1))
   \<and> calculateStackOverflowRelevance now (item\<lparr>so_view_count := 10 * so_view_count item + 9\<rparr>) =
       calculateStackOverflowRelevance now item + 5
   \<and> (so_view_count item \<le> v \<longrightarrow>
        calculateStackOverflowRelevance now item \<le> calculateStackOverflowRelevance now (item\<lparr>so_view_count := v\<rparr>))"
proof (intro conjI impI)
  show "calculateStackOverflowRelevance now item =
     5 * so_score item + 10 * int (so_answer_count item)
     + (if so_is_answered item then 20 else 0)
     + (if so_accepted_answer_id item = None \<or> so_accepted_answer_id item = Some 0 then 0 else 30)
     + (if now - so_creation_date item * 1000 < 365 * 86400000 then 10 else 0)
     + round (5 * log 10 (real (so_view_count item) + 1))"
    by (rule relevance_closed)
next
  let ?x = "5 * log 10 (real (so_view_count item) + 1)"
  have "5 * (log 10 (real (so_view_count item) + 1) + 1) = ?x + of_int 5"
    by simp
  then have "round (5 * (log 10 (real (so_view_count item) + 1) + 1)) = round ?x + 5"
    by (simp only: round_add_of_int)
  then show "calculateStackOverflowRelevance now (item\<lparr>so_view_count := 10 * so_view_count item + 9\<rparr>) =
       calculateStackOverflowRelevance now item + 5"
    using relevance_views [where now = now and item = item and v = "10 * so_view_count item + 9"]
    by (simp only: log10_times_ten)
next
  assume "so_view_count item \<le> v"
  then have "log 10 (real (so_view_count item) + 1) \<le> log 10 (real v + 1)"
    by simp
  then have "round (5 * log 10 (real (so_view_count item) + 1)) \<le> round (5 * log 10 (real v + 1))"
    by (intro round_mono) simp
  then show "calculateStackOverflowRelevance now item \<le> calculateStackOverflowRelevance now (item\<lparr>so_view_count := v\<rparr>)"
    using relevance_views [where now = now and item = item and v = v] by simp
qed

theorem calculateStackOverflowRelevance_components_witness:
  "calculateStackOverflowRelevance 1700086400000 question = 95
   \<and> calculateStackOverflowRelevance (1700000000000 + 365 * 86400000) question = 85
   \<and> calculateStackOverflowRelevance 1700086400000 (question\<lparr>so_view_count := 9\<rparr>) = 100
   \<and> so_view_count question \<le> 9"
proof -
  have "calculateStackOverflowRelevance 1700086400000 question = 95"
    using calculateStackOverflowRelevance_components [of 1700086400000 question 9]
    by (simp add: question_def)
  moreover have "calculateStackOverflowRelevance (1700000000000 + 365 * 86400000) question = 85"
    using calculateStackOverflowRelevance_components [of "1700000000000 + 365 * 86400000" question 9]
    by (simp add: question_def)
  moreover have "calculateStackOverflowRelevance 1700086400000 (question\<lparr>so_view_count := 9\<rparr>) = 100"
    using calculateStackOverflowRelevance_components [of 1700086400000 question 9] calculation(1)
    by (simp add: question_def)
  ultimately show ?thesis
    by (simp add: question_def)
qed

section \<open>Properties of rank fusion\<close>

lemma push_each: "fold (\<lambda>x all. all @ [f x]) xs acc = acc @ map f xs"
  by (induction xs arbitrary: acc) simp_all

lemma fused_score_simps:
  "fused_score (Internal h) = relevance_or_similarity h + 100"
  "fused_score (StackOverflow r) = of_int (sr_relevance_score r)"
  "fused_score (YouTube v) = 30"
  by (auto simp: relevance_or_similarity_def fused_score_def split: option.splits)

lemma combine_all:
  "combineAndRankResults internal stackoverflow youtube =
     take 10 (sort_key (\<lambda>r. - rank_score r)
       (map (\<lambda>x. \<lparr>ranked_item = x, rank_score = fused_score x\<rparr>) (candidates internal stackoverflow youtube)))"
  unfolding combineAndRankResults_def Let_def push_each js_sort_descending
  by (simp add: slice0_def candidates_def comp_def fused_score_simps)

lemma combine_sorted:
  "sorted_wrt (\<lambda>a b. rank_score b \<le> rank_score a) (combineAndRankResults internal stackoverflow youtube)"
  unfolding combine_all by (rule sorted_wrt_take) (rule sorted_wrt_sort_key_descending)

lemma combine_length:
  "length (combineAndRankResults internal stackoverflow youtube) =
     min 10 (length internal + length stackoverflow + length youtube)"
  unfolding combine_all by (simp add: candidates_def)

text \<open>
  Claim C2. \<open>combineAndRankResults\<close> gives every internal hit its relevance score,
  or its similarity as a percentage where the relevance score is absent or zero, plus
  the bonus 100, every Stack Overflow result its own relevance score and every
  YouTube result the score 30; it puts all candidates into one list, sorts it by
  descending score and keeps the first ten.
\<close>

theorem combineAndRankResults_fusion:
  "combineAndRankResults internal stackoverflow youtube =
     take 10 (sort_key (\<lambda>r. - rank_score r)
       (map (\<lambda>x. \<lparr>ranked_item = x, rank_score = fused_score x\<rparr>) (candidates internal stackoverflow youtube)))
   \<and> list_all (\<lambda>r. rank_score r = fused_score (ranked_item r)) (combineAndRankResults internal stackoverflow youtube)
   \<and> sorted_wrt (\<lambda>a b. rank_score b \<le> rank_score a) (combineAndRankResults internal stackoverflow youtube)
   \<and> length (combineAndRankResults internal stackoverflow youtube) =
       min 10 (length internal + length stackoverflow + length youtube)
   \<and> mset (map ranked_item (combineAndRankResults internal stackoverflow youtube)) \<subseteq>#
       mset (candidates internal stackoverflow youtube)
   \<and> (length internal + length stackoverflow + length youtube \<le> 10 \<longrightarrow>
       mset (map ranked_item (combineAndRankResults internal stackoverflow youtube)) =
       mset (candidates internal stackoverflow youtube))"
proof -
  let ?tag = "\<lambda>x. \<lparr>ranked_item = x, rank_score = fused_score x\<rparr>"
  let ?all = "map ?tag (candidates internal stackoverflow youtube)"
  let ?sorted = "sort_key (\<lambda>r. - rank_score r) ?all"
  have eq: "combineAndRankResults internal stackoverflow youtube = take 10 ?sorted"
    by (rule combine_all)
  have scores: "list_all (\<lambda>r. rank_score r = fused_score (ranked_item r)) (take 10 ?sorted)"
    by (auto simp: list_all_iff dest!: in_set_takeD)
  have sorted: "sorted_wrt (\<lambda>a b. rank_score b \<le> rank_score a) (take 10 ?sorted)"
    by (rule sorted_wrt_take) (rule sorted_wrt_sort_key_descending)
  have len: "length (take 10 ?sorted) = min 10 (length internal + length stackoverflow + length youtube)"
    by (simp add: candidates_def)
  have items: "mset (map ranked_item ?sorted) = mset (candidates internal stackoverflow youtube)"
    by (simp add: multiset.map_comp comp_def)
  have "mset (take 10 ?sorted) \<subseteq># mset ?sorted"
    by (metis append_take_drop_id mset_append mset_subset_eq_add_left)
  then have sub: "mset (map ranked_item (take 10 ?sorted)) \<subseteq># mset (candidates internal stackoverflow youtube)"
    unfolding items [symmetric] mset_map by (rule image_mset_subseteq_mono)
  have whole: "length internal + length stackoverflow + length youtube \<le> 10 \<longrightarrow>
       mset (map ranked_item (take 10 ?sorted)) = mset (candidates internal stackoverflow youtube)"
    using items by (simp add: candidates_def)
  show ?thesis
    unfolding eq using scores sorted len sub whole by blast
qed

lemma example_fusion:
  "combineAndRankResults [hit_vpn, hit_slow] [answer_result] [video] =
     [\<lparr>ranked_item = Internal hit_vpn, rank_score = 200\<rparr>,
      \<lparr>ranked_item = Internal hit_slow, rank_score = 180\<rparr>,
      \<lparr>ranked_item = StackOverflow answer_result, rank_score = 95\<rparr>,
      \<lparr>ranked_item = YouTube video, rank_score = 30\<rparr>]"
  by (simp add: combineAndRankResults_def js_sort_def slice0_def relevance_or_similarity_def
      hit_vpn_def hit_slow_def answer_result_def)

theorem combineAndRankResults_fusion_witness:
  "combineAndRankResults [hit_vpn, hit_slow] [answer_result] [video] =
     [\<lparr>ranked_item = Internal hit_vpn, rank_score = 200\<rparr>,
      \<lparr>ranked_item = Internal hit_slow, rank_score = 180\<rparr>,
      \<lparr>ranked_item = StackOverflow answer_result, rank_score = 95\<rparr>,
      \<lparr>ranked_item = YouTube video, rank_score = 30\<rparr>]
   \<and> length [hit_vpn, hit_slow] + length [answer_result] + length [video] \<le> 10
   \<and> mset (map ranked_item (combineAndRankResults [hit_vpn, hit_slow] [answer_result] [video])) =
       mset (candidates [hit_vpn, hit_slow] [answer_result] [video])
   \<and> fused_score (Internal hit_slow) = 180"
proof -
  have "length [hit_vpn, hit_slow] + length [answer_result] + length [video] \<le> 10"
    by simp
  moreover from this have "mset (map ranked_item (combineAndRankResults [hit_vpn, hit_slow] [answer_result] [video])) =
       mset (candidates [hit_vpn, hit_slow] [answer_result] [video])"
    using combineAndRankResults_fusion [of "[hit_vpn, hit_slow]" "[answer_result]" "[video]"] by blast
  moreover have "fused_score (Internal hit_slow) = 180"
    by (simp add: fused_score_def hit_slow_def)
  ultimately show ?thesis
    using example_fusion by blast
qed

lemma combine_members:
  assumes "r \<in> set (combineAndRankResults internal stackoverflow youtube)"
  shows "rank_score r = fused_score (ranked_item r)
         \<and> ranked_item r \<in> set (candidates internal stackoverflow youtube)"
  using assms unfolding combine_all by (auto dest!: in_set_takeD)

text \<open>
  Claim C10, as the code has it. When the operand that the fusion reads from every
  internal hit, its relevance score where that is present and not zero and its
  similarity otherwise, is not negative, every internal entry of the fused list has a
  rank score of at least 100, every YouTube entry has the rank score 30, and every
  internal entry stands before every YouTube entry.
\<close>

theorem internal_above_youtube:
  assumes "list_all selected_score_nonneg internal"
  shows "(\<forall>r h. r \<in> set (combineAndRankResults internal stackoverflow youtube) \<and> ranked_item r = Internal h
            \<longrightarrow> 100 \<le> rank_score r)
       \<and> (\<forall>r v. r \<in> set (combineAndRankResults internal stackoverflow youtube) \<and> ranked_item r = YouTube v
            \<longrightarrow> rank_score r = 30)
       \<and> (\<forall>i j h v. i < length (combineAndRankResults internal stackoverflow youtube)
              \<and> j < length (combineAndRankResults internal stackoverflow youtube)
              \<and> ranked_item (combineAndRankResults internal stackoverflow youtube ! i) = Internal h
              \<and> ranked_item (combineAndRankResults internal stackoverflow youtube ! j) = YouTube v
            \<longrightarrow> i < j)"
proof -
  let ?out = "combineAndRankResults internal stackoverflow youtube"
  have internal: "100 \<le> rank_score r" if "r \<in> set ?out" and "ranked_item r = Internal h" for r h
  proof -
    from that combine_members [of r internal stackoverflow youtube]
    have s: "rank_score r = relevance_or_similarity h + 100" and "Internal h \<in> set (candidates internal stackoverflow youtube)"
      by (simp_all add: fused_score_simps)
    then have "h \<in> set internal"
      by (auto simp: candidates_def)
    with assms have "selected_score_nonneg h"
      by (simp add: list_all_iff)
    then have "0 \<le> relevance_or_similarity h"
      by (auto simp: selected_score_nonneg_def relevance_or_similarity_def split: option.splits if_splits)
    with s show ?thesis by simp
  qed
  have youtube: "rank_score r = 30" if "r \<in> set ?out" and "ranked_item r = YouTube v" for r v
    using that combine_members [of r internal stackoverflow youtube] by (simp add: fused_score_simps)
  have sorted: "sorted_wrt (\<lambda>a b. rank_score b \<le> rank_score a) ?out"
    by (rule combine_sorted)
  have order: "i < j" if "i < length ?out" and "j < length ?out"
    and "ranked_item (?out ! i) = Internal h" and "ranked_item (?out ! j) = YouTube v" for i j h v
  proof (rule ccontr)
    assume "\<not> i < j"
    moreover from that have "i \<noteq> j" by auto
    ultimately have "j < i" by simp
    with sorted that(1) have "rank_score (?out ! i) \<le> rank_score (?out ! j)"
      by (simp add: sorted_wrt_iff_nth_less)
    moreover have "100 \<le> rank_score (?out ! i)"
      using internal [of "?out ! i" h] that by simp
    moreover have "rank_score (?out ! j) = 30"
      using youtube [of "?out ! j" v] that by simp
    ultimately show False by simp
  qed
  show ?thesis
    using internal youtube order by blast
qed

theorem internal_above_youtube_witness:
  "list_all selected_score_nonneg [hit_vpn, hit_slow]
   \<and> combineAndRankResults [hit_vpn, hit_slow] [answer_result] [video] =
     [\<lparr>ranked_item = Internal hit_vpn, rank_score = 200\<rparr>,
      \<lparr>ranked_item = Internal hit_slow, rank_score = 180\<rparr>,
      \<lparr>ranked_item = StackOverflow answer_result, rank_score = 95\<rparr>,
      \<lparr>ranked_item = YouTube video, rank_score = 30\<rparr>]
   \<and> 100 \<le> rank_score (combineAndRankResults [hit_vpn, hit_slow] [answer_result] [video] ! 1)
   \<and> (1::nat) < 3"
proof -
  have h: "list_all selected_score_nonneg [hit_vpn, hit_slow]"
    by (simp add: selected_score_nonneg_def hit_vpn_def hit_slow_def)
  have "100 \<le> rank_score (combineAndRankResults [hit_vpn, hit_slow] [answer_result] [video] ! 1)"
    using internal_above_youtube [OF h, of "[answer_result]" "[video]"] example_fusion
    by simp
  then show ?thesis
    using h example_fusion by simp
qed

text \<open>
  The claim as stated fails for a hit with relevance score zero and negative
  similarity: zero is falsy, so the similarity is read, the rank score is
  \<open>- 90 + 100 = 10\<close>, and the YouTube entry with its 30 comes first.
\<close>

theorem internal_above_youtube_counterexample:
  "list_all nonneg_relevance_or_similarity [hit_opposite]
   \<and> combineAndRankResults [hit_opposite] [] [video] =
       [\<lparr>ranked_item = YouTube video, rank_score = 30\<rparr>,
        \<lparr>ranked_item = Internal hit_opposite, rank_score = 10\<rparr>]
   \<and> \<not> 100 \<le> rank_score (combineAndRankResults [hit_opposite] [] [video] ! 1)"
  by (simp add: nonneg_relevance_or_similarity_def combineAndRankResults_def js_sort_def slice0_def
      relevance_or_similarity_def hit_opposite_def)

section \<open>Properties of searchAllSources\<close>

text \<open>
  Claim C1, for a query that is not the empty string. Whatever the three sources do,
  \<open>searchAllSources\<close> returns a result: each source contributes what it returned,
  a rejected internal search and a failed request of an adapter contribute the empty
  list and the count \<open>0\<close>, and \<open>top_results\<close> has at most ten entries, sorted by
  descending fused score.
\<close>

theorem searchAllSources_partial_failure:
  assumes "query \<noteq> []"
  shows "\<exists>c. searchAllSources w query supabaseSearchFn options = Inr c
     \<and> internal_results c =
         (case supabaseSearchFn query (internalLimit options) of Fulfilled v \<Rightarrow> map Internal v | Rejected \<Rightarrow> [])
     \<and> internal_count c = length (internal_results c)
     \<and> stackoverflow_results c = searchStackOverflow w query (stackOverflowLimit options)
     \<and> stackoverflow_count c = length (stackoverflow_results c)
     \<and> youtube_results c = searchYouTube w query (youtubeLimit options)
     \<and> youtube_count c = length (youtube_results c)
     \<and> (supabaseSearchFn query (internalLimit options) = Rejected \<longrightarrow> internal_count c = 0)
     \<and> (\<forall>status. stack_exchange w query (stackOverflowLimit options) = HttpFailure status
           \<longrightarrow> stackoverflow_count c = 0)
     \<and> (\<forall>status. youtube_api w query (youtubeLimit options) = HttpFailure status
           \<longrightarrow> youtube_count c = 0)
     \<and> total_results c = internal_count c + stackoverflow_count c + youtube_count c
     \<and> length (top_results c) = min 10 (total_results c)
     \<and> length (top_results c) \<le> 10
     \<and> sorted_wrt (\<lambda>a b. rank_score b \<le> rank_score a) (top_results c)"
proof -
  let ?i = "case supabaseSearchFn query (internalLimit options) of Fulfilled v \<Rightarrow> v | Rejected \<Rightarrow> []"
  let ?s = "searchStackOverflow w query (stackOverflowLimit options)"
  let ?y = "searchYouTube w query (youtubeLimit options)"
  let ?c = "\<lparr>combined_query = query, timestamp = clock w,
             total_results = length ?i + length ?s + length ?y,
             internal_count = length ?i, internal_results = map Internal ?i,
             stackoverflow_count = length ?s, stackoverflow_results = ?s,
             youtube_count = length ?y, youtube_results = ?y,
             top_results = combineAndRankResults ?i ?s ?y\<rparr>"
  have run: "searchAllSources w query supabaseSearchFn options = Inr ?c"
    using assms by (simp add: searchAllSources_def Let_def)
  have so: "?s = []" if "stack_exchange w query (stackOverflowLimit options) = HttpFailure status" for status
    using that by (simp add: searchStackOverflow_def)
  have yt: "?y = []" if "youtube_api w query (youtubeLimit options) = HttpFailure status" for status
    using that by (simp add: searchYouTube_def)
  have len: "length (combineAndRankResults ?i ?s ?y) = min 10 (length ?i + length ?s + length ?y)"
    and sorted: "sorted_wrt (\<lambda>a b. rank_score b \<le> rank_score a) (combineAndRankResults ?i ?s ?y)"
    by (rule combine_length, rule combine_sorted)
  show ?thesis
  proof (intro exI conjI)
    show "searchAllSources w query supabaseSearchFn options = Inr ?c" by (rule run)
  qed (use so yt len sorted in \<open>auto split: settled.splits\<close>)
qed

theorem searchAllSources_partial_failure_witness:
  "(ascii ''vpn down'') \<noteq> []
   \<and> stack_exchange scenario_world (ascii ''vpn down'') (stackOverflowLimit default_limits) = HttpFailure None
   \<and> searchAllSources scenario_world (ascii ''vpn down'') scenario_internal default_limits = Inr scenario_result
   \<and> internal_count scenario_result = 2
   \<and> stackoverflow_count scenario_result = 0
   \<and> youtube_count scenario_result = 1
   \<and> length (top_results scenario_result) \<le> 10
   \<and> sorted_wrt (\<lambda>a b. rank_score b \<le> rank_score a) (top_results scenario_result)"
proof -
  have q: "(ascii ''vpn down'') \<noteq> []" by simp
  have run: "searchAllSources scenario_world (ascii ''vpn down'') scenario_internal default_limits = Inr scenario_result"
    by (simp add: searchAllSources_def scenario_world_def scenario_internal_def default_limits_def
        searchStackOverflow_def searchYouTube_def format_video_def scenario_result_def video_def
        combineAndRankResults_def js_sort_def slice0_def relevance_or_similarity_def hit_vpn_def hit_slow_def)
  from searchAllSources_partial_failure [OF q, of scenario_world scenario_internal default_limits]
  have "length (top_results scenario_result) \<le> 10
        \<and> sorted_wrt (\<lambda>a b. rank_score b \<le> rank_score a) (top_results scenario_result)"
    unfolding run by blast
  then show ?thesis
    using run by (simp add: scenario_result_def scenario_world_def)
qed

text \<open>
  For the empty query the guard at the head of \<open>searchAllSources\<close> throws, whatever
  the sources would have returned.
\<close>

theorem searchAllSources_empty_query_counterexample:
  "searchAllSources scenario_world [] scenario_internal default_limits = Inl QueryNotNonEmptyString"
  by (simp add: searchAllSources_def)

end
